theory Spec2Isabelle
  imports Main "HOL-Library.Sublist"
begin

section \<open>Strings\<close>

text \<open>
  A Python \<open>str\<close> is a sequence of Unicode code points, and the formatter tests for
  symbols beyond ASCII, so a string is modelled as the list of its code points.
  \<open>lit\<close> turns an ASCII literal into such a string.
\<close>

type_synonym ustr = "nat list"

definition lit :: "string \<Rightarrow> ustr" where
  "lit s = map of_char s"

text \<open>
  \<open>str.strip()\<close> without arguments removes the characters for which \<open>str.isspace\<close>
  holds, at both ends.
\<close>

definition isspace :: "nat \<Rightarrow> bool" where
  "isspace c \<longleftrightarrow>
     (9 \<le> c \<and> c \<le> 13) \<or> (28 \<le> c \<and> c \<le> 32) \<or> c = 133 \<or> c = 160 \<or> c = 5760 \<or>
     (8192 \<le> c \<and> c \<le> 8202) \<or> c = 8232 \<or> c = 8233 \<or> c = 8239 \<or> c = 8287 \<or> c = 12288"

definition strip :: "ustr \<Rightarrow> ustr" where
  "strip s = rev (dropWhile isspace (rev (dropWhile isspace s)))"

text \<open>\<open>text.split("\n")\<close>: the pieces between line feeds; never an empty list.\<close>

fun split_nl :: "ustr \<Rightarrow> ustr list" where
  "split_nl [] = [[]]"
| "split_nl (c # cs) =
     (if c = 10 then [] # split_nl cs
      else (case split_nl cs of [] \<Rightarrow> [[c]] | l # ls \<Rightarrow> (c # l) # ls))"

text \<open>\<open>str(n)\<close> for an integer: its decimal digits, with a sign when negative.\<close>

function str_nat :: "nat \<Rightarrow> ustr" where
  "str_nat n = (if n < 10 then [48 + n] else str_nat (n div 10) @ [48 + n mod 10])"
  by pat_completeness auto
termination
  by (relation "measure (\<lambda>n. n)") auto

declare str_nat.simps [simp del]

definition str_int :: "int \<Rightarrow> ustr" where
  "str_int i = (if i < 0 then lit ''-'' @ str_nat (nat (- i)) else str_nat (nat i))"

text \<open>\<open>sep.join(xs)\<close>.\<close>

fun join :: "ustr \<Rightarrow> ustr list \<Rightarrow> ustr" where
  "join sep [] = []"
| "join sep [x] = x"
| "join sep (x # y # ys) = x @ sep @ join sep (y # ys)"

section \<open>The formatter\<close>

text \<open>
  The symbols of \<open>has_math\<close>, in the order of the source:
  \<open>=\<close>, \<open>^\<close>, \<open>_\<close>, U+222B, U+2211, U+2202, U+2206, U+221A.
\<close>

definition math_chars :: "nat list" where
  "math_chars = [61, 94, 95, 8747, 8721, 8706, 8710, 8730]"

definition has_math :: "ustr \<Rightarrow> bool" where
  "has_math line = list_ex (\<lambda>char. char \<in> set line) math_chars"

definition ascii_letter :: "nat \<Rightarrow> bool" where
  "ascii_letter c \<longleftrightarrow> (97 \<le> c \<and> c \<le> 122) \<or> (65 \<le> c \<and> c \<le> 90)"

text \<open>
  \<open>re.search(r'\\[a-zA-Z]+', line)\<close> finds a match exactly when some backslash is
  followed by an ASCII letter.
\<close>

fun has_greek :: "ustr \<Rightarrow> bool" where
  "has_greek (a # b # cs) = ((a = 92 \<and> ascii_letter b) \<or> has_greek (b # cs))"
| "has_greek _ = False"

text \<open>
  The body of the loop of \<open>format_latex\<close> on one element of \<open>lines\<close>: what it appends to
  \<open>formatted_lines\<close>, \<open>None\<close> when it takes the \<open>continue\<close>.
\<close>

definition format_line :: "ustr \<Rightarrow> ustr option" where
  "format_line l =
     (let line = strip l in
      if line = [] then None
      else if has_math line \<or> has_greek line then
        (if count_list line 61 \<ge> 1 \<and> length line < 100
         then Some (lit ''$$'' @ line @ lit ''$$'')
         else Some (lit ''$'' @ line @ lit ''$''))
      else Some line)"

fun format_loop :: "ustr list \<Rightarrow> ustr list \<Rightarrow> ustr list" where
  "format_loop [] formatted_lines = formatted_lines"
| "format_loop (l # ls) formatted_lines =
     (case format_line l of
        None \<Rightarrow> format_loop ls formatted_lines
      | Some out \<Rightarrow> format_loop ls (formatted_lines @ [out]))"

definition format_latex :: "ustr \<Rightarrow> ustr" where
  "format_latex text = join (lit [CHR 10]) (format_loop (split_nl text) [])"

section \<open>Exceptions, documents and the file system\<close>

text \<open>
  An instance of Python's \<open>Exception\<close>, with the text that \<open>str(e)\<close> gives. The
  libraries raise such exceptions; a signal outside \<open>Exception\<close> (a keyboard interrupt,
  an exit of the interpreter) is not part of the model.
\<close>

datatype exn = ValueError ustr | OSError ustr | OtherException ustr

fun str_exn :: "exn \<Rightarrow> ustr" where
  "str_exn (ValueError m) = m"
| "str_exn (OSError m) = m"
| "str_exn (OtherException m) = m"

text \<open>A value of a document's metadata, and \<open>str\<close> of it as an f-string prints it.\<close>

datatype pyval = PInt int | PStr ustr

fun str_pyval :: "pyval \<Rightarrow> ustr" where
  "str_pyval (PInt i) = str_int i"
| "str_pyval (PStr s) = s"

record doc =
  page_content :: ustr
  metadata :: "string \<rightharpoonup> pyval"

text \<open>
  A path is the list of its components from the root. A file system maps each existing
  path to a directory, to a file of a saved index (one of the files that \<open>save_local\<close>
  writes for the index \<open>ix\<close>), or to any other file.
\<close>

type_synonym path = "string list"

datatype 'ix node = Dir | IndexFile 'ix | OtherFile

type_synonym 'ix filesystem = "path \<rightharpoonup> 'ix node"

definition path_str :: "path \<Rightarrow> ustr" where
  "path_str p = lit (concat (map (\<lambda>c. ''/'' @ c) p))"

definition exists :: "'ix filesystem \<Rightarrow> path \<Rightarrow> bool" where
  "exists f p \<longleftrightarrow> f p \<noteq> None"

text \<open>
  \<open>os.makedirs(d, exist_ok=True)\<close>: every missing directory on the way to \<open>d\<close> and \<open>d\<close>
  itself; it raises when a file is in the way.
\<close>

definition blocked :: "'ix filesystem \<Rightarrow> path \<Rightarrow> bool" where
  "blocked f d \<longleftrightarrow> list_ex (\<lambda>p. f p \<noteq> None \<and> f p \<noteq> Some Dir) (prefixes d)"

definition with_dirs :: "'ix filesystem \<Rightarrow> path \<Rightarrow> 'ix filesystem" where
  "with_dirs f d = (\<lambda>p. if prefix p d \<and> f p = None then Some Dir else f p)"

text \<open>\<open>shutil.rmtree(d)\<close>: \<open>d\<close> and everything below it.\<close>

definition without_tree :: "'ix filesystem \<Rightarrow> path \<Rightarrow> 'ix filesystem" where
  "without_tree f d = (\<lambda>p. if prefix d p then None else f p)"

datatype level = INFO | WARNING | ERROR

datatype io_op = MakeDirs path | WriteFile path | RmTree path | GetSize path

text \<open>
  The mutable world of a run: the file system, every file system state it went through
  since (one entry per completed operation that changed it, so that a run interrupted
  between two operations leaves one of these states), and the log.
\<close>

record 'ix world =
  fs :: "'ix filesystem"
  history :: "'ix filesystem list"
  logs :: "(level \<times> ustr) list"

text \<open>A statement of the program: it raises or returns a value, and changes the world.\<close>

type_synonym ('a, 'ix) prog = "'ix world \<Rightarrow> (exn + 'a) \<times> 'ix world"

definition ret :: "'a \<Rightarrow> ('a, 'ix) prog" where
  "ret x w = (Inr x, w)"

definition raise :: "exn \<Rightarrow> ('a, 'ix) prog" where
  "raise e w = (Inl e, w)"

definition lift :: "exn + 'a \<Rightarrow> ('a, 'ix) prog" where
  "lift r w = (r, w)"

definition bnd :: "('a, 'ix) prog \<Rightarrow> ('a \<Rightarrow> ('b, 'ix) prog) \<Rightarrow> ('b, 'ix) prog" where
  "bnd m k w = (case m w of (Inl e, w') \<Rightarrow> (Inl e, w') | (Inr x, w') \<Rightarrow> k x w')"

definition try_except :: "('a, 'ix) prog \<Rightarrow> (exn \<Rightarrow> ('a, 'ix) prog) \<Rightarrow> ('a, 'ix) prog" where
  "try_except m h w = (case m w of (Inl e, w') \<Rightarrow> h e w' | (Inr x, w') \<Rightarrow> (Inr x, w'))"

definition logger :: "level \<Rightarrow> ustr \<Rightarrow> (unit, 'ix) prog" where
  "logger lv msg w = (Inr (), w\<lparr>logs := logs w @ [(lv, msg)]\<rparr>)"

definition set_fs :: "'ix filesystem \<Rightarrow> (unit, 'ix) prog" where
  "set_fs f w = (Inr (), w\<lparr>fs := f, history := history w @ [f]\<rparr>)"

text \<open>
  What the program does not contain: the location of the script, the PDF reader, the text
  splitter, the embedding model and the FAISS store of the libraries it imports. Each is a
  parameter. \<open>io_fault\<close> says which operations on the file system the operating system
  refuses (permissions, a full disk), and with what exception.
\<close>

record 'ix env =
  BASE_DIR :: path
  io_fault :: "io_op \<Rightarrow> exn option"
  pdf_load :: "path \<Rightarrow> exn + doc list"
  split_documents :: "doc list \<Rightarrow> exn + doc list"
  new_embeddings :: "exn option"
  from_documents :: "doc list \<Rightarrow> exn + 'ix"
  load_local :: "'ix filesystem \<Rightarrow> path \<Rightarrow> exn + 'ix"
  similarity_search :: "'ix \<Rightarrow> ustr \<Rightarrow> int \<Rightarrow> exn + doc list"

definition PDF_FILES :: "'ix env \<Rightarrow> path list" where
  "PDF_FILES env =
     [BASE_DIR env @ [''1.pdf''], BASE_DIR env @ [''2.pdf''],
      BASE_DIR env @ [''3.pdf''], BASE_DIR env @ [''4.pdf'']]"

definition VECTOR_STORE_DIR :: "'ix env \<Rightarrow> path" where
  "VECTOR_STORE_DIR env = BASE_DIR env @ [''quantum_index'']"

subsection \<open>Operations on the file system\<close>

definition makedirs :: "'ix env \<Rightarrow> path \<Rightarrow> (unit, 'ix) prog" where
  "makedirs env d w =
     (case io_fault env (MakeDirs d) of
        Some e \<Rightarrow> (Inl e, w)
      | None \<Rightarrow>
          if blocked (fs w) d then (Inl (OSError (lit ''File exists: '' @ path_str d)), w)
          else set_fs (with_dirs (fs w) d) w)"

text \<open>Writing a file needs its directory, and the path must not be a directory.\<close>

definition write_file :: "'ix env \<Rightarrow> path \<Rightarrow> 'ix node \<Rightarrow> (unit, 'ix) prog" where
  "write_file env p c w =
     (case io_fault env (WriteFile p) of
        Some e \<Rightarrow> (Inl e, w)
      | None \<Rightarrow>
          if p = [] \<or> fs w (butlast p) \<noteq> Some Dir \<or> fs w p = Some Dir
          then (Inl (OSError (lit ''Cannot write: '' @ path_str p)), w)
          else set_fs ((fs w)(p \<mapsto> c)) w)"

definition rmtree :: "'ix env \<Rightarrow> path \<Rightarrow> (unit, 'ix) prog" where
  "rmtree env d w =
     (case io_fault env (RmTree d) of
        Some e \<Rightarrow> (Inl e, w)
      | None \<Rightarrow>
          if fs w d \<noteq> Some Dir then (Inl (OSError (lit ''Not a directory: '' @ path_str d)), w)
          else set_fs (without_tree (fs w) d) w)"

definition getsize :: "'ix env \<Rightarrow> path \<Rightarrow> (unit, 'ix) prog" where
  "getsize env p w =
     (case io_fault env (GetSize p) of
        Some e \<Rightarrow> (Inl e, w)
      | None \<Rightarrow>
          if fs w p = None then (Inl (OSError (lit ''No such file or directory: '' @ path_str p)), w)
          else (Inr (), w))"

text \<open>
  \<open>vector_store.save_local(folder)\<close> of the FAISS store writes the index data file
  \<open>index.faiss\<close> and then the index metadata file \<open>index.pkl\<close> into \<open>folder\<close>: the two
  files that \<open>vector_store_exists\<close> requires.
\<close>

definition save_local :: "'ix env \<Rightarrow> 'ix \<Rightarrow> path \<Rightarrow> (unit, 'ix) prog" where
  "save_local env vector_store folder =
     bnd (write_file env (folder @ [''index.faiss'']) (IndexFile vector_store)) (\<lambda>_.
       write_file env (folder @ [''index.pkl'']) (IndexFile vector_store))"

section \<open>Building the index\<close>

text \<open>
  The loop of \<open>create_vector_store\<close> over \<open>pdf_files\<close>, with \<open>all_docs\<close> as it stands
  before the iteration: a missing file is logged and skipped, an existing one is read by
  the PDF reader and its pages are appended.
\<close>

fun load_pdfs :: "'ix env \<Rightarrow> path list \<Rightarrow> doc list \<Rightarrow> (doc list, 'ix) prog" where
  "load_pdfs env [] all_docs = ret all_docs"
| "load_pdfs env (pdf_path # rest) all_docs =
     (\<lambda>w.
        if \<not> exists (fs w) pdf_path then
          bnd (logger ERROR (lit ''PDF file not found: '' @ path_str pdf_path)) (\<lambda>_.
            load_pdfs env rest all_docs) w
        else
          bnd (logger INFO (lit ''Loading PDF: '' @ path_str pdf_path)) (\<lambda>_.
          bnd (lift (pdf_load env pdf_path)) (\<lambda>docs.
          bnd (logger INFO (lit ''Loaded '' @ str_nat (length docs) @ lit '' pages from ''
                 @ path_str pdf_path)) (\<lambda>_.
            load_pdfs env rest (all_docs @ docs)))) w)"

text \<open>The loading step: the loop, then the check that something was loaded.\<close>

definition load_documents :: "'ix env \<Rightarrow> path list \<Rightarrow> (doc list, 'ix) prog" where
  "load_documents env pdf_files =
     bnd (load_pdfs env pdf_files []) (\<lambda>all_docs.
       if all_docs = [] then raise (ValueError (lit ''No documents loaded from PDFs''))
       else ret all_docs)"

definition new_embeddings_prog :: "'ix env \<Rightarrow> (unit, 'ix) prog" where
  "new_embeddings_prog env =
     (case new_embeddings env of Some e \<Rightarrow> raise e | None \<Rightarrow> ret ())"

definition create_body :: "'ix env \<Rightarrow> path list \<Rightarrow> ('ix, 'ix) prog" where
  "create_body env pdf_files =
     bnd (load_documents env pdf_files) (\<lambda>all_docs.
     bnd (lift (split_documents env all_docs)) (\<lambda>chunks.
     bnd (logger INFO (lit ''Created '' @ str_nat (length chunks) @ lit '' chunks'')) (\<lambda>_.
     bnd (logger INFO (lit ''Creating embeddings...'')) (\<lambda>_.
     bnd (new_embeddings_prog env) (\<lambda>_.
     bnd (lift (from_documents env chunks)) (\<lambda>vector_store.
     bnd (makedirs env (VECTOR_STORE_DIR env)) (\<lambda>_.
     bnd (save_local env vector_store (VECTOR_STORE_DIR env)) (\<lambda>_.
     bnd (logger INFO (lit ''Vector store saved to '' @ path_str (VECTOR_STORE_DIR env))) (\<lambda>_.
       ret vector_store)))))))))"

definition create_vector_store :: "'ix env \<Rightarrow> path list \<Rightarrow> ('ix, 'ix) prog" where
  "create_vector_store env pdf_files =
     try_except (create_body env pdf_files) (\<lambda>e.
       bnd (logger ERROR (lit ''Error creating vector store: '' @ str_exn e)) (\<lambda>_.
         raise e))"

section \<open>Answering a query\<close>

text \<open>The block of one result; \<open>i\<close> counts from 1.\<close>

definition chunk_text :: "nat \<Rightarrow> doc \<Rightarrow> ustr" where
  "chunk_text i result =
     (let content = strip (page_content result);
          formatted_content = format_latex content;
          page = (case metadata result ''page'' of None \<Rightarrow> lit ''N/A'' | Some v \<Rightarrow> str_pyval v)
      in lit ''**Source '' @ str_nat i @ lit ''** (Page '' @ page @ lit ''):'' @ [10]
           @ formatted_content)"

fun formatted_chunks :: "nat \<Rightarrow> doc list \<Rightarrow> ustr list" where
  "formatted_chunks i [] = []"
| "formatted_chunks i (result # results) = chunk_text i result # formatted_chunks (Suc i) results"

definition no_results_message :: ustr where
  "no_results_message = lit ''No relevant information found in the documents.''"

text \<open>
  The first statement of \<open>retrieve_answer\<close>: the check for the index, and the build when
  the check finds none.
\<close>

definition check_index :: "'ix env \<Rightarrow> (unit, 'ix) prog" where
  "check_index env w =
     (if \<not> exists (fs w) (VECTOR_STORE_DIR env) then
        bnd (logger WARNING (lit ''Vector store not found at '' @ path_str (VECTOR_STORE_DIR env)
               @ lit ''. Creating new one...'')) (\<lambda>_.
        bnd (create_vector_store env (PDF_FILES env)) (\<lambda>_. ret ())) w
      else ret () w)"

definition retrieve_body :: "'ix env \<Rightarrow> ustr \<Rightarrow> int \<Rightarrow> (ustr, 'ix) prog" where
  "retrieve_body env query k =
     bnd (check_index env) (\<lambda>_.
     bnd (logger INFO (lit ''Loading vector store for query: '' @ query)) (\<lambda>_.
     bnd (new_embeddings_prog env) (\<lambda>_.
     bnd (\<lambda>w. lift (load_local env (fs w) (VECTOR_STORE_DIR env)) w) (\<lambda>vector_store.
     bnd (lift (similarity_search env vector_store query k)) (\<lambda>results.
       if results = [] then
         bnd (logger WARNING (lit ''No results found for query'')) (\<lambda>_.
           ret no_results_message)
       else
         bnd (logger INFO (lit ''Found '' @ str_nat (length results) @ lit '' relevant chunks''))
           (\<lambda>_.
           ret (join ([10, 10] @ lit ''---'' @ [10, 10]) (formatted_chunks 1 results))))))))"

definition retrieve_answer :: "'ix env \<Rightarrow> ustr \<Rightarrow> int \<Rightarrow> (ustr, 'ix) prog" where
  "retrieve_answer env query k =
     try_except (retrieve_body env query k) (\<lambda>e.
       let error_msg = lit ''Error retrieving information: '' @ str_exn e in
       bnd (logger ERROR error_msg) (\<lambda>_. ret error_msg))"

definition vector_store_exists :: "'ix env \<Rightarrow> 'ix filesystem \<Rightarrow> bool" where
  "vector_store_exists env f \<longleftrightarrow>
     exists f (VECTOR_STORE_DIR env) \<and>
     list_all (\<lambda>name. exists f (VECTOR_STORE_DIR env @ [name])) [''index.faiss'', ''index.pkl'']"

section \<open>The HTTP handler of \<open>/rag\<close>\<close>

datatype response = Context ustr | Error ustr ustr

definition rag :: "'ix env \<Rightarrow> ustr \<Rightarrow> 'ix world \<Rightarrow> response \<times> 'ix world" where
  "rag env query w =
     (case try_except
             (bnd (logger INFO (lit ''RAG query received: '' @ query)) (\<lambda>_.
              bnd (retrieve_answer env query 3) (\<lambda>context.
                if context = [] then ret (Context (lit ''No relevant information found in documents.''))
                else
                  bnd (logger INFO (lit ''Context retrieved successfully, length: ''
                         @ str_nat (length context))) (\<lambda>_.
                    ret (Context context)))))
             (\<lambda>e. bnd (logger ERROR (lit ''RAG error: '' @ str_exn e)) (\<lambda>_.
                    ret (Error (str_exn e) []))) w of
        (Inr r, w') \<Rightarrow> (r, w')
      | (Inl e, w') \<Rightarrow> (Error (str_exn e) [], w'))"

section \<open>The rebuild script\<close>

text \<open>
  The script prints its progress; of its output the model keeps the final banner: success,
  or the error of the build that it caught. An exception outside its \<open>try\<close> ends the script.
\<close>

datatype banner = SUCCESS | ERROR_BANNER ustr

fun getsizes :: "'ix env \<Rightarrow> path list \<Rightarrow> (unit, 'ix) prog" where
  "getsizes env [] = ret ()"
| "getsizes env (pdf # rest) = bnd (getsize env pdf) (\<lambda>_. getsizes env rest)"

definition rebuild :: "'ix env \<Rightarrow> (banner, 'ix) prog" where
  "rebuild env =
     bnd (\<lambda>w.
       if exists (fs w) (VECTOR_STORE_DIR env) then rmtree env (VECTOR_STORE_DIR env) w
       else ret () w) (\<lambda>_.
     bnd (getsizes env (PDF_FILES env)) (\<lambda>_.
       try_except
         (bnd (create_vector_store env (PDF_FILES env)) (\<lambda>vector_store. ret SUCCESS))
         (\<lambda>e. ret (ERROR_BANNER (str_exn e)))))"

section \<open>The chunker\<close>

text \<open>
  The configuration that \<open>create_vector_store\<close> gives the splitter: the size of a chunk,
  the overlap, and the separators in their priority: paragraph break, line break, period
  and space, space, empty string.
\<close>

definition chunk_size :: nat where
  "chunk_size = 800"

definition chunk_overlap :: nat where
  "chunk_overlap = 100"

definition separators :: "ustr list" where
  "separators = [[10, 10], [10], lit ''. '', lit '' '', []]"

text \<open>
  Modelled from the spec: the split of a text on one separator, which is the code of the
  splitter library and not in the program. The pieces are contiguous: a piece begins where
  a separator begins and runs to the next one, so that the pieces in a row are the text.
  \<open>n\<close> counts the characters of the current separator still to be passed over, and \<open>cur\<close>
  is the piece under way.
\<close>

fun split_on :: "ustr \<Rightarrow> nat \<Rightarrow> ustr \<Rightarrow> ustr \<Rightarrow> ustr list" where
  "split_on sep n cur [] = (if cur = [] then [] else [cur])"
| "split_on sep n cur (c # cs) =
     (if n = 0 \<and> prefix sep (c # cs) then
        (if cur = [] then split_on sep (length sep - 1) [c] cs
         else cur # split_on sep (length sep - 1) [c] cs)
      else split_on sep (n - 1) (cur @ [c]) cs)"

text \<open>
  Modelled from the spec: the recursive split of the splitter library, ``recursively
  attempt to split text on an ordered list of separators until each resulting piece is
  at most the max chunk size''. A text within the size is a piece; a longer one is split
  on the first separator and its pieces are split on the separators that remain; the
  empty separator splits between any two characters; with no separator left the text is
  a piece as it is (the degenerate case of the spec).
\<close>

fun split_text :: "ustr list \<Rightarrow> ustr \<Rightarrow> ustr list" where
  "split_text [] text = [text]"
| "split_text (sep # seps) text =
     (if length text \<le> chunk_size then [text]
      else if sep = [] then map (\<lambda>c. [c]) text
      else concat (map (split_text seps) (split_on sep 0 [] text)))"

text \<open>
  Modelled from the spec: the merge of the splitter library, ``merge adjacent pieces while
  the merged length stays within the max size; when moving to the next chunk, retain the
  trailing 100 characters of the previous chunk as overlap context prefixed onto the next
  chunk where it does not exceed max size''. The chunk under way is \<open>ov @ fresh\<close>: the
  overlap taken from the chunk before it, and the text that is new in it. A finished
  chunk is given as this pair.
\<close>

fun merge_splits :: "ustr \<Rightarrow> ustr \<Rightarrow> ustr list \<Rightarrow> (ustr \<times> ustr) list" where
  "merge_splits ov fresh [] = (if fresh = [] then [] else [(ov, fresh)])"
| "merge_splits ov fresh (p # ps) =
     (if length (ov @ fresh @ p) \<le> chunk_size then merge_splits ov (fresh @ p) ps
      else
        (if fresh = [] then [] else [(ov, fresh)])
        @ (let trailing = drop (length (ov @ fresh) - chunk_overlap) (ov @ fresh) in
           if length (trailing @ p) \<le> chunk_size then merge_splits trailing p ps
           else merge_splits [] p ps))"

text \<open>
  Modelled from the spec: the chunks of the text of one page, each as its overlap and its
  new text, which the splitter library computes.
\<close>

definition page_chunks :: "ustr \<Rightarrow> (ustr \<times> ustr) list" where
  "page_chunks text = merge_splits [] [] (split_text separators text)"

text \<open>
  Modelled from the spec: \<open>splitter.split_documents\<close> of the splitter library. The pages
  are chunked one by one, and a chunk keeps the metadata of its page.
\<close>

definition chunk_documents :: "doc list \<Rightarrow> doc list" where
  "chunk_documents docs =
     concat (map (\<lambda>page.
       map (\<lambda>(ov, fresh). page\<lparr>page_content := ov @ fresh\<rparr>) (page_chunks (page_content page)))
       docs)"

text \<open>
  The chunks of a page in a row, read as overlaps: the overlap of each chunk is the end
  of the chunk before it (\<open>prev\<close> for the first).
\<close>

fun chained :: "ustr \<Rightarrow> (ustr \<times> ustr) list \<Rightarrow> bool" where
  "chained prev [] = True"
| "chained prev ((ov, fresh) # rest) = (suffix ov prev \<and> chained (ov @ fresh) rest)"

section \<open>A concrete installation\<close>

text \<open>
  An installation to run the program on: the script lives in \<open>/app\<close> beside its four
  PDFs of one page each, the splitter leaves the pages whole, an index is named by a
  number, loading reads the number back from the data file and fails when one of the two
  files is not there, and a search returns the first \<open>k\<close> pages.
\<close>

definition example_page :: doc where
  "example_page = \<lparr>page_content = lit ''E = mc^2'', metadata = [''page'' \<mapsto> PInt 0]\<rparr>"

definition example_load_local :: "nat filesystem \<Rightarrow> path \<Rightarrow> exn + nat" where
  "example_load_local f d =
     (case f (d @ [''index.faiss'']) of
        Some (IndexFile i) \<Rightarrow>
          (case f (d @ [''index.pkl'']) of
             Some (IndexFile j) \<Rightarrow> Inr i
           | _ \<Rightarrow> Inl (OSError (lit ''No such file: index.pkl'')))
      | _ \<Rightarrow> Inl (OtherException (lit ''could not open index.faiss for reading'')))"

definition example_env :: "nat env" where
  "example_env =
     \<lparr>BASE_DIR = [''app''],
      io_fault = (\<lambda>_. None),
      pdf_load = (\<lambda>_. Inr [example_page]),
      split_documents = Inr,
      new_embeddings = None,
      from_documents = (\<lambda>chunks. Inr (length chunks)),
      load_local = example_load_local,
      similarity_search = (\<lambda>ix query k. Inr (take (nat k) (replicate ix example_page)))\<rparr>"

text \<open>The installation before any index was built, and with the index \<open>0\<close> in place.\<close>

definition fresh_fs :: "nat filesystem" where
  "fresh_fs =
     [[] \<mapsto> Dir, [''app''] \<mapsto> Dir,
      [''app'', ''1.pdf''] \<mapsto> OtherFile, [''app'', ''2.pdf''] \<mapsto> OtherFile,
      [''app'', ''3.pdf''] \<mapsto> OtherFile, [''app'', ''4.pdf''] \<mapsto> OtherFile]"

definition indexed_fs :: "nat filesystem" where
  "indexed_fs =
     fresh_fs([''app'', ''quantum_index''] \<mapsto> Dir,
       [''app'', ''quantum_index'', ''index.faiss''] \<mapsto> IndexFile 0,
       [''app'', ''quantum_index'', ''index.pkl''] \<mapsto> IndexFile 0)"

text \<open>The index directory is there and holds no file.\<close>

definition empty_dir_fs :: "nat filesystem" where
  "empty_dir_fs = fresh_fs([''app'', ''quantum_index''] \<mapsto> Dir)"


definition world_of :: "'ix filesystem \<Rightarrow> 'ix world" where
  "world_of f = \<lparr>fs = f, history = [], logs = []\<rparr>"


section \<open>Properties of the formatter\<close>

lemma format_loop_acc: "format_loop ls acc = acc @ format_loop ls []"
proof (induction ls arbitrary: acc)
  case Nil show ?case by simp
next
  case (Cons l ls)
  show ?case
  proof (cases "format_line l")
    case None
    then show ?thesis using Cons.IH [of acc] by simp
  next
    case (Some out)
    then show ?thesis using Cons.IH [of "acc @ [out]"] Cons.IH [of "[out]"] by simp
  qed
qed

lemma format_loop_append:
  "format_loop (xs @ ys) [] = format_loop xs [] @ format_loop ys []"
proof (induction xs)
  case Nil show ?case by simp
next
  case (Cons l xs)
  show ?case
  proof (cases "format_line l")
    case None
    then show ?thesis using Cons.IH by simp
  next
    case (Some out)
    have a: "format_loop ((l # xs) @ ys) [] = format_loop (xs @ ys) [out]" using Some by simp
    have b: "format_loop (xs @ ys) [out] = [out] @ format_loop (xs @ ys) []" by (rule format_loop_acc)
    have c: "format_loop (l # xs) [] = [out] @ format_loop xs []"
      using Some format_loop_acc [of xs "[out]"] by simp
    show ?thesis using a b c Cons.IH by simp
  qed
qed

lemma format_loop_middle:
  "format_loop (before @ l # after) [] =
     format_loop before [] @ (case format_line l of None \<Rightarrow> [] | Some out \<Rightarrow> [out])
       @ format_loop after []"
proof -
  have "format_loop (before @ [l] @ after) [] =
          format_loop before [] @ format_loop [l] [] @ format_loop after []"
    by (simp only: format_loop_append)
  moreover have "format_loop [l] [] = (case format_line l of None \<Rightarrow> [] | Some out \<Rightarrow> [out])"
    by (simp split: option.split)
  ultimately show ?thesis by simp
qed

lemma split_nl_single: "10 \<notin> set l \<Longrightarrow> split_nl l = [l]"
  by (induction l) auto

lemma set_strip_subset: "set (strip s) \<subseteq> set s"
proof -
  have "set (strip s) = set (dropWhile isspace (rev (dropWhile isspace s)))" by (simp add: strip_def)
  also have "\<dots> \<subseteq> set (rev (dropWhile isspace s))" by (rule set_dropWhileD [THEN subsetI])
  also have "\<dots> \<subseteq> set s" using set_dropWhileD by fastforce
  finally show ?thesis .
qed

lemma mem_dropWhile: "c \<in> set xs \<Longrightarrow> \<not> P c \<Longrightarrow> c \<in> set (dropWhile P xs)"
  by (induction xs) auto

lemma mem_strip: "c \<in> set s \<Longrightarrow> \<not> isspace c \<Longrightarrow> c \<in> set (strip s)"
proof -
  assume c: "c \<in> set s" and ns: "\<not> isspace c"
  have "c \<in> set (dropWhile isspace s)"
    using c ns by (rule mem_dropWhile [of c s isspace])
  then have "c \<in> set (rev (dropWhile isspace s))" by simp
  then have "c \<in> set (dropWhile isspace (rev (dropWhile isspace s)))"
    using ns by (rule mem_dropWhile [of c _ isspace])
  then show ?thesis by (simp add: strip_def)
qed

lemma math_chars_not_space: "c \<in> set math_chars \<Longrightarrow> \<not> isspace c"
  by (auto simp: math_chars_def isspace_def)

lemma has_math_strip: "has_math (strip l) = has_math l"
  unfolding has_math_def list_ex_iff
  using set_strip_subset [of l] mem_strip [of _ l] math_chars_not_space by blast

lemma has_greek_dropWhile: "has_greek (dropWhile isspace s) = has_greek s"
proof (induction s rule: has_greek.induct)
  case (1 a b cs)
  show ?case
  proof (cases "isspace a")
    case True
    then have "a \<noteq> 92" by (auto simp: isspace_def)
    then show ?thesis using True 1 by simp
  next
    case False then show ?thesis by simp
  qed
qed simp_all

lemma has_greek_snoc_space: "isspace c \<Longrightarrow> has_greek (s @ [c]) = has_greek s"
proof (induction s rule: has_greek.induct)
  case (1 a b cs)
  then show ?case by simp
qed (auto simp: isspace_def ascii_letter_def)

lemma has_greek_drop_trailing: "has_greek (rev (dropWhile isspace (rev s))) = has_greek s"
proof (induction s rule: rev_induct)
  case Nil show ?case by simp
next
  case (snoc c s)
  show ?case
  proof (cases "isspace c")
    case True
    then show ?thesis using snoc has_greek_snoc_space [of c s] by simp
  next
    case False then show ?thesis by simp
  qed
qed

lemma has_greek_strip: "has_greek (strip l) = has_greek l"
  by (simp add: strip_def has_greek_drop_trailing has_greek_dropWhile)

lemma equals_sign_strip: "61 \<in> set (strip l) \<longleftrightarrow> 61 \<in> set l"
  using set_strip_subset [of l] mem_strip [of 61 l] by (auto simp: isspace_def)

lemma count_list_ge1: "Suc 0 \<le> count_list xs x \<longleftrightarrow> x \<in> set xs"
  by (induction xs) auto

lemma marked_nonempty: "has_math s \<or> has_greek s \<Longrightarrow> s \<noteq> []"
  by (auto simp: has_math_def list_ex_iff)

lemma format_line_marked:
  assumes "has_math l \<or> has_greek l"
  shows "format_line l =
           Some (if 61 \<in> set l \<and> length (strip l) < 100
                 then lit ''$$'' @ strip l @ lit ''$$''
                 else lit ''$'' @ strip l @ lit ''$'')"
proof -
  have m: "has_math (strip l) \<or> has_greek (strip l)"
    using assms by (simp add: has_math_strip has_greek_strip)
  then have ne: "strip l \<noteq> []" by (rule marked_nonempty)
  show ?thesis
    using m ne by (simp add: format_line_def Let_def count_list_ge1 equals_sign_strip)
qed

lemma format_line_plain:
  assumes "\<not> has_math l" and "\<not> has_greek l"
  shows "format_line l = (if strip l = [] then None else Some (strip l))"
  using assms by (simp add: format_line_def Let_def has_math_strip has_greek_strip)

lemma strip_unpadded:
  assumes "l \<noteq> []" and "\<not> isspace (hd l)" and "\<not> isspace (last l)"
  shows "strip l = l"
proof -
  have a: "dropWhile isspace l = l" using assms(1,2) by (cases l) auto
  have "rev l \<noteq> []" and "\<not> isspace (hd (rev l))" using assms(1,3) by (auto simp: hd_rev)
  then have b: "dropWhile isspace (rev l) = rev l" by (cases "rev l") auto
  show ?thesis by (simp add: strip_def a b)
qed

text \<open>
  C5, as the program has it. A line of the input that contains one of the symbols
  \<open>=\<close>, \<open>^\<close>, \<open>_\<close>, U+222B, U+2211, U+2202, U+2206, U+221A, or a backslash followed by a
  letter, comes out with its leading and trailing whitespace removed and wrapped: in
  \<open>$$\<close> when it contains \<open>=\<close> and what is left after the whitespace is removed is
  shorter than 100 characters, in \<open>$\<close> otherwise. The lines before and after it are
  formatted on their own.
\<close>

theorem format_latex_math_line:
  assumes "split_nl text = before @ l # after"
    and "has_math l \<or> has_greek l"
  shows "format_latex text =
           join (lit [CHR 10])
             (format_loop before []
              @ [if 61 \<in> set l \<and> length (strip l) < 100
                 then lit ''$$'' @ strip l @ lit ''$$''
                 else lit ''$'' @ strip l @ lit ''$'']
              @ format_loop after [])"
  using assms by (simp add: format_latex_def format_loop_middle format_line_marked)

text \<open>The line \<open>E = mc^2\<close> alone is such an input, and comes out in \<open>$$\<close>.\<close>

theorem format_latex_math_line_witness:
  "split_nl (lit ''E = mc^2'') = [] @ lit ''E = mc^2'' # []
   \<and> has_math (lit ''E = mc^2'')
   \<and> format_latex (lit ''E = mc^2'') = lit ''$$E = mc^2$$''"
proof -
  have h1: "split_nl (lit ''E = mc^2'') = [] @ lit ''E = mc^2'' # []"
    by (simp add: lit_def)
  have h2: "has_math (lit ''E = mc^2'')"
    by (simp add: lit_def has_math_def math_chars_def)
  have h3: "strip (lit ''E = mc^2'') = lit ''E = mc^2''"
    by (simp add: lit_def strip_def isspace_def)
  have "format_latex (lit ''E = mc^2'') = lit ''$$E = mc^2$$''"
    using format_latex_math_line [OF h1 disjI1 [OF h2]] by (simp add: h3) (simp add: lit_def)
  with h1 h2 show ?thesis by blast
qed

text \<open>
  C5 as the specification words it fails on a padded line: \<open>a=b\<close> followed by 97
  spaces is a line of 100 characters that contains \<open>=\<close>, so its length is not under 100,
  and it comes out as a display block all the same.
\<close>

theorem format_latex_padded_line_counterexample:
  "has_math (lit ''a=b'' @ replicate 97 32)
   \<and> 61 \<in> set (lit ''a=b'' @ replicate 97 32)
   \<and> \<not> length (lit ''a=b'' @ replicate 97 32) < 100
   \<and> format_latex (lit ''a=b'' @ replicate 97 32) = lit ''$$a=b$$''"
proof -
  let ?l = "lit ''a=b'' @ replicate 97 32"
  have m: "has_math ?l"
    by (simp add: has_math_def math_chars_def lit_def)
  have e: "61 \<in> set ?l"
    by (simp add: lit_def)
  have n: "\<not> length ?l < 100"
    by (simp add: lit_def)
  have nl: "10 \<notin> set ?l"
    by (simp add: lit_def)
  have a: "dropWhile isspace ?l = ?l"
    by (simp add: lit_def isspace_def)
  have "dropWhile isspace (replicate 97 32 @ rev (lit ''a=b'')) = dropWhile isspace (rev (lit ''a=b''))"
    by (rule dropWhile_append2) (simp add: isspace_def)
  then have b: "dropWhile isspace (replicate 97 32 @ rev (lit ''a=b'')) = rev (lit ''a=b'')"
    by (simp add: lit_def isspace_def)
  have s: "strip ?l = lit ''a=b''"
    by (simp add: strip_def a) (simp add: b)
  have "format_loop (split_nl ?l) [] = [lit ''$$'' @ lit ''a=b'' @ lit ''$$'']"
    using format_line_marked [of ?l] m e
    by (simp add: split_nl_single [OF nl] s) (simp add: lit_def)
  then have "format_latex ?l = lit ''$$a=b$$''"
    by (simp add: format_latex_def) (simp add: lit_def)
  with m e n show ?thesis by blast
qed

text \<open>
  C6, as the program has it. A line of the input with none of the symbols and no
  backslash followed by a letter comes out with its leading and trailing whitespace
  removed and is otherwise unchanged; it is dropped when nothing is left, which is the
  case of a line that is empty or all whitespace. A line that neither begins nor ends
  with whitespace comes out as it is.
\<close>

theorem format_latex_plain_line:
  assumes "split_nl text = before @ l # after"
    and "\<not> has_math l" and "\<not> has_greek l"
  shows "format_latex text =
           join (lit [CHR 10])
             (format_loop before [] @ (if strip l = [] then [] else [strip l])
              @ format_loop after [])
         \<and> (l \<noteq> [] \<and> \<not> isspace (hd l) \<and> \<not> isspace (last l) \<longrightarrow> strip l = l)"
  using assms by (simp add: format_latex_def format_loop_middle format_line_plain strip_unpadded)

text \<open>The line \<open>just text\<close> alone is such an input, and comes out unchanged.\<close>

theorem format_latex_plain_line_witness:
  "split_nl (lit ''just text'') = [] @ lit ''just text'' # []
   \<and> \<not> has_math (lit ''just text'') \<and> \<not> has_greek (lit ''just text'')
   \<and> format_latex (lit ''just text'') = lit ''just text''"
proof -
  have h1: "split_nl (lit ''just text'') = [] @ lit ''just text'' # []"
    by (simp add: lit_def)
  have h2: "\<not> has_math (lit ''just text'')"
    by (simp add: lit_def has_math_def math_chars_def)
  have h3: "\<not> has_greek (lit ''just text'')"
    by (simp add: lit_def)
  have h4: "strip (lit ''just text'') = lit ''just text''"
    by (simp add: lit_def strip_def isspace_def)
  have "format_latex (lit ''just text'') = lit ''just text''"
    using format_latex_plain_line [OF h1 h2 h3] by (simp add: h4)
  with h1 h2 h3 show ?thesis by blast
qed

text \<open>
  C6 as the specification words it fails on a padded line: \<open>just text\<close> after one space
  has none of the symbols and does not come out unchanged.
\<close>

theorem format_latex_padded_plain_counterexample:
  "\<not> has_math (lit '' just text'') \<and> \<not> has_greek (lit '' just text'')
   \<and> format_latex (lit '' just text'') = lit ''just text''
   \<and> format_latex (lit '' just text'') \<noteq> lit '' just text''"
  by (simp add: format_latex_def format_line_def strip_def isspace_def has_math_def math_chars_def lit_def ascii_letter_def)

section \<open>Running the program\<close>

lemmas prog_defs = ret_def raise_def lift_def bnd_def try_except_def logger_def set_fs_def

lemmas example_defs = example_env_def example_load_local_def example_page_def
  fresh_fs_def indexed_fs_def empty_dir_fs_def world_of_def VECTOR_STORE_DIR_def PDF_FILES_def

lemmas eval_defs = create_vector_store_def create_body_def load_documents_def
  new_embeddings_prog_def save_local_def makedirs_def write_file_def rmtree_def getsize_def
  blocked_def with_dirs_def without_tree_def exists_def prog_defs example_defs

section \<open>Properties of the query path\<close>

lemma retrieve_body_cases:
  "fst (retrieve_body env query k w) =
     (case check_index env w of
        (Inl e, w1) \<Rightarrow> Inl e
      | (Inr u, w1) \<Rightarrow>
          (case new_embeddings env of
             Some e \<Rightarrow> Inl e
           | None \<Rightarrow>
               (case load_local env (fs w1) (VECTOR_STORE_DIR env) of
                  Inl e \<Rightarrow> Inl e
                | Inr vector_store \<Rightarrow>
                    (case similarity_search env vector_store query k of
                       Inl e \<Rightarrow> Inl e
                     | Inr results \<Rightarrow>
                         if results = [] then Inr no_results_message
                         else Inr (join ([10, 10] @ lit ''---'' @ [10, 10])
                                (formatted_chunks 1 results))))))"
  by (auto simp: retrieve_body_def new_embeddings_prog_def prog_defs
        split: prod.splits sum.splits option.splits)

lemma retrieve_answer_fst:
  "fst (retrieve_answer env query k w) =
     Inr (case fst (retrieve_body env query k w) of
            Inl e \<Rightarrow> lit ''Error retrieving information: '' @ str_exn e
          | Inr s \<Rightarrow> s)"
  by (simp add: retrieve_answer_def prog_defs Let_def split: prod.split sum.split)

lemma retrieve_answer_raised:
  "retrieve_body env query k w = (Inl e, w') \<Longrightarrow>
     retrieve_answer env query k w =
       (Inr (lit ''Error retrieving information: '' @ str_exn e),
        w'\<lparr>logs := logs w' @ [(ERROR, lit ''Error retrieving information: '' @ str_exn e)]\<rparr>)"
  by (simp add: retrieve_answer_def prog_defs Let_def)

lemma retrieve_answer_returned:
  "retrieve_body env query k w = (Inr s, w') \<Longrightarrow> retrieve_answer env query k w = (Inr s, w')"
  by (simp add: retrieve_answer_def prog_defs Let_def)

lemma join_nonempty: "xs \<noteq> [] \<Longrightarrow> hd xs \<noteq> [] \<Longrightarrow> join sep xs \<noteq> [] \<and> hd (join sep xs) = hd (hd xs)"
  by (cases "(sep, xs)" rule: join.cases) auto

lemma chunk_text_hd: "chunk_text i r \<noteq> [] \<and> hd (chunk_text i r) = 42"
  by (simp add: chunk_text_def Let_def lit_def)

lemma formatted_chunks_hd:
  "results \<noteq> [] \<Longrightarrow> formatted_chunks i results \<noteq> [] \<and> hd (formatted_chunks i results) = chunk_text i (hd results)"
  by (cases results) auto


lemma formatted_chunks_join_hd:
  assumes "results \<noteq> []"
  shows "join sep (formatted_chunks i results) \<noteq> []
         \<and> hd (join sep (formatted_chunks i results)) = 42"
proof -
  have a: "formatted_chunks i results \<noteq> []"
    and b: "hd (formatted_chunks i results) = chunk_text i (hd results)"
    using formatted_chunks_hd [OF assms, of i] by simp_all
  have c: "hd (formatted_chunks i results) \<noteq> []" using b chunk_text_hd by simp
  show ?thesis using join_nonempty [OF a c, of sep] b chunk_text_hd by simp
qed

lemma retrieve_answer_forms:
  "\<exists>s. fst (retrieve_answer env query k w) = Inr s
       \<and> (s = no_results_message
          \<or> (\<exists>e. s = lit ''Error retrieving information: '' @ str_exn e)
          \<or> (\<exists>results. results \<noteq> []
                \<and> s = join ([10, 10] @ lit ''---'' @ [10, 10]) (formatted_chunks 1 results)))"
  unfolding retrieve_answer_fst retrieve_body_cases
  by (auto split: prod.splits sum.splits option.splits)

lemma rag_fst:
  "fst (rag env query w) =
     (case fst (retrieve_answer env query 3
                  (w\<lparr>logs := logs w @ [(INFO, lit ''RAG query received: '' @ query)]\<rparr>)) of
        Inr context \<Rightarrow>
          if context = [] then Context (lit ''No relevant information found in documents.'')
          else Context context
      | Inl e \<Rightarrow> Error (str_exn e) [])"
  by (auto simp: rag_def prog_defs split: prod.splits sum.splits)

lemma no_results_message_hd: "no_results_message \<noteq> [] \<and> hd no_results_message = 78"
  by (simp add: no_results_message_def lit_def)

lemma error_message_hd:
  "lit ''Error retrieving information: '' @ m \<noteq> [] \<and> hd (lit ''Error retrieving information: '' @ m) = 69"
  by (simp add: lit_def)

lemma no_results_message_not_fallback:
  "no_results_message \<noteq> lit ''No relevant information found in documents.''"
  by (simp add: no_results_message_def lit_def)

lemma example_check_empty_dir:
  "check_index example_env (world_of empty_dir_fs) = (Inr (), world_of empty_dir_fs)"
  by (simp add: check_index_def exists_def ret_def example_defs)

lemma example_load_empty_dir:
  "load_local example_env (fs (world_of empty_dir_fs)) (VECTOR_STORE_DIR example_env)
     = Inl (OtherException (lit ''could not open index.faiss for reading''))"
  by (simp add: example_defs)


text \<open>
  C3. For every query and every \<open>k\<close>, in every world and with any behaviour of the
  libraries, \<open>retrieve_answer\<close> returns a string and raises nothing: whatever exception
  its body raises is logged as an error and turned into the string that begins with
  \<open>Error retrieving information: \<close>. The body raises exactly the exception of the first
  stage that fails: the check and build of the index, the embedding model, the load of
  the index, the search; formatting cannot fail.
\<close>

theorem retrieve_answer_never_raises:
  "(\<exists>s. fst (retrieve_answer env query k w) = Inr s)
   \<and> (\<forall>e w'. retrieve_body env query k w = (Inl e, w') \<longrightarrow>
         retrieve_answer env query k w =
           (Inr (lit ''Error retrieving information: '' @ str_exn e),
            w'\<lparr>logs := logs w'
                    @ [(ERROR, lit ''Error retrieving information: '' @ str_exn e)]\<rparr>))
   \<and> fst (retrieve_body env query k w) =
       (case check_index env w of
          (Inl e, w1) \<Rightarrow> Inl e
        | (Inr u, w1) \<Rightarrow>
            (case new_embeddings env of
               Some e \<Rightarrow> Inl e
             | None \<Rightarrow>
                 (case load_local env (fs w1) (VECTOR_STORE_DIR env) of
                    Inl e \<Rightarrow> Inl e
                  | Inr vector_store \<Rightarrow>
                      (case similarity_search env vector_store query k of
                         Inl e \<Rightarrow> Inl e
                       | Inr results \<Rightarrow>
                           if results = [] then Inr no_results_message
                           else Inr (join ([10, 10] @ lit ''---'' @ [10, 10])
                                  (formatted_chunks 1 results))))))"
proof -
  have a: "\<exists>s. fst (retrieve_answer env query k w) = Inr s"
    by (simp add: retrieve_answer_fst)
  have b: "\<forall>e w'. retrieve_body env query k w = (Inl e, w') \<longrightarrow>
         retrieve_answer env query k w =
           (Inr (lit ''Error retrieving information: '' @ str_exn e),
            w'\<lparr>logs := logs w'
                    @ [(ERROR, lit ''Error retrieving information: '' @ str_exn e)]\<rparr>)"
    using retrieve_answer_raised by blast
  show ?thesis using a b retrieve_body_cases [of env query k w] by blast
qed


text \<open>
  On the concrete installation with an empty index directory the load fails, the body
  raises, and the answer is the error string.
\<close>

theorem retrieve_answer_never_raises_witness:
  "fst (retrieve_body example_env (lit ''q'') 3 (world_of empty_dir_fs))
     = Inl (OtherException (lit ''could not open index.faiss for reading''))
   \<and> fst (retrieve_answer example_env (lit ''q'') 3 (world_of empty_dir_fs))
     = Inr (lit ''Error retrieving information: could not open index.faiss for reading'')"
proof -
  let ?e = "OtherException (lit ''could not open index.faiss for reading'')"
  let ?w = "world_of empty_dir_fs"
  note t = retrieve_answer_never_raises [of example_env "lit ''q''" 3 ?w]
  have n: "new_embeddings example_env = None" by (simp add: example_env_def)
  have b: "fst (retrieve_body example_env (lit ''q'') 3 ?w) = Inl ?e"
    using t example_check_empty_dir example_load_empty_dir n by simp
  then have "retrieve_body example_env (lit ''q'') 3 ?w
               = (Inl ?e, snd (retrieve_body example_env (lit ''q'') 3 ?w))"
    by (metis prod.collapse)
  with t have "fst (retrieve_answer example_env (lit ''q'') 3 ?w)
                 = Inr (lit ''Error retrieving information: '' @ str_exn ?e)"
    by simp
  then have "fst (retrieve_answer example_env (lit ''q'') 3 ?w)
     = Inr (lit ''Error retrieving information: could not open index.faiss for reading'')"
    by (simp add: lit_def)
  with b show ?thesis by blast
qed


text \<open>
  C4 fails on the program. With the index directory present and both required files
  missing, \<open>vector_store_exists\<close> says that there is no index, and \<open>retrieve_answer\<close>,
  which tests the directory alone, builds nothing (the file system goes through no new
  state) and answers with the error of the failed load.
\<close>

theorem retrieve_answer_empty_directory:
  "exists empty_dir_fs (VECTOR_STORE_DIR example_env)
   \<and> \<not> vector_store_exists example_env empty_dir_fs
   \<and> history (snd (retrieve_answer example_env (lit ''spin'') 3 (world_of empty_dir_fs))) = []
   \<and> fst (retrieve_answer example_env (lit ''spin'') 3 (world_of empty_dir_fs))
       = Inr (lit ''Error retrieving information: could not open index.faiss for reading'')"
  by (simp add: retrieve_answer_def retrieve_body_def check_index_def vector_store_exists_def
        eval_defs lit_def Let_def)


text \<open>
  C9. When the stages before the search succeed and the search returns no result,
  \<open>retrieve_answer\<close> returns the fixed message, after logging a warning and no error;
  the message is not an error string.
\<close>

theorem no_results_message_returned:
  assumes "check_index env w = (Inr (), w1)"
    and "new_embeddings env = None"
    and "load_local env (fs w1) (VECTOR_STORE_DIR env) = Inr vector_store"
    and "similarity_search env vector_store query k = Inr []"
  shows "retrieve_answer env query k w =
           (Inr no_results_message,
            w1\<lparr>logs := logs w1 @ [(INFO, lit ''Loading vector store for query: '' @ query),
                                   (WARNING, lit ''No results found for query'')]\<rparr>)
         \<and> \<not> prefix (lit ''Error retrieving information: '') no_results_message"
proof -
  have "retrieve_body env query k w =
           (Inr no_results_message,
            w1\<lparr>logs := logs w1 @ [(INFO, lit ''Loading vector store for query: '' @ query),
                                   (WARNING, lit ''No results found for query'')]\<rparr>)"
    using assms by (simp add: retrieve_body_def new_embeddings_prog_def prog_defs)
  then have "retrieve_answer env query k w =
           (Inr no_results_message,
            w1\<lparr>logs := logs w1 @ [(INFO, lit ''Loading vector store for query: '' @ query),
                                   (WARNING, lit ''No results found for query'')]\<rparr>)"
    by (rule retrieve_answer_returned)
  moreover have "\<not> prefix (lit ''Error retrieving information: '') no_results_message"
    by (simp add: no_results_message_def lit_def)
  ultimately show ?thesis by blast
qed


text \<open>
  On the concrete installation the saved index \<open>0\<close> is empty: a search in it returns
  nothing, and the answer is the fixed message.
\<close>

theorem no_results_message_returned_witness:
  "check_index example_env (world_of indexed_fs) = (Inr (), world_of indexed_fs)
   \<and> new_embeddings example_env = None
   \<and> load_local example_env (fs (world_of indexed_fs)) (VECTOR_STORE_DIR example_env) = Inr 0
   \<and> similarity_search example_env 0 (lit ''spin'') 3 = Inr []
   \<and> fst (retrieve_answer example_env (lit ''spin'') 3 (world_of indexed_fs))
       = Inr (lit ''No relevant information found in the documents.'')"
proof -
  have h1: "check_index example_env (world_of indexed_fs) = (Inr (), world_of indexed_fs)"
    by (simp add: check_index_def exists_def ret_def example_defs)
  have h2: "new_embeddings example_env = None"
    by (simp add: example_env_def)
  have h3: "load_local example_env (fs (world_of indexed_fs)) (VECTOR_STORE_DIR example_env) = Inr 0"
    by (simp add: example_defs)
  have h4: "similarity_search example_env 0 (lit ''spin'') 3 = Inr []"
    by (simp add: example_env_def)
  have "fst (retrieve_answer example_env (lit ''spin'') 3 (world_of indexed_fs))
       = Inr (lit ''No relevant information found in the documents.'')"
    using no_results_message_returned [OF h1 h2 h3 h4] by (simp add: no_results_message_def)
  with h1 h2 h3 h4 show ?thesis by blast
qed


text \<open>
  C10. The string that \<open>retrieve_answer\<close> returns is never empty: it is the fixed
  message, or it begins with \<open>Error retrieving information: \<close>, or it is the join of the
  blocks of a non-empty list of results. So the handler of \<open>/rag\<close>, which calls
  \<open>retrieve_answer\<close> with the default \<open>k = 3\<close>, always returns that string as the
  context and never its own fallback message.
\<close>

theorem retrieve_answer_never_empty:
  "(\<exists>s. fst (retrieve_answer env query k w) = Inr s \<and> s \<noteq> []
       \<and> (s = no_results_message
          \<or> prefix (lit ''Error retrieving information: '') s
          \<or> (\<exists>results. results \<noteq> []
                \<and> s = join ([10, 10] @ lit ''---'' @ [10, 10]) (formatted_chunks 1 results))))
   \<and> (\<exists>s. s \<noteq> []
         \<and> fst (retrieve_answer env query 3
                  (w\<lparr>logs := logs w @ [(INFO, lit ''RAG query received: '' @ query)]\<rparr>)) = Inr s
         \<and> fst (rag env query w) = Context s)
   \<and> fst (rag env query w) \<noteq> Context (lit ''No relevant information found in documents.'')"
proof -
  have forms: "\<exists>s. fst (retrieve_answer env query k' w') = Inr s \<and> s \<noteq> []
       \<and> (hd s \<noteq> 78 \<or> s = no_results_message)
       \<and> (s = no_results_message
          \<or> prefix (lit ''Error retrieving information: '') s
          \<or> (\<exists>results. results \<noteq> []
                \<and> s = join ([10, 10] @ lit ''---'' @ [10, 10]) (formatted_chunks 1 results)))"
    for k' and w' :: "'a world"
  proof -
    obtain s where r: "fst (retrieve_answer env query k' w') = Inr s"
      and f: "s = no_results_message
          \<or> (\<exists>e. s = lit ''Error retrieving information: '' @ str_exn e)
          \<or> (\<exists>results. results \<noteq> []
                \<and> s = join ([10, 10] @ lit ''---'' @ [10, 10]) (formatted_chunks 1 results))"
      using retrieve_answer_forms [of env query k' w'] by blast
    from f consider (none) "s = no_results_message"
      | (err) e where "s = lit ''Error retrieving information: '' @ str_exn e"
      | (blocks) results where "results \<noteq> []"
          "s = join ([10, 10] @ lit ''---'' @ [10, 10]) (formatted_chunks 1 results)"
      by blast
    then have "s \<noteq> [] \<and> (hd s \<noteq> 78 \<or> s = no_results_message)
       \<and> (s = no_results_message
          \<or> prefix (lit ''Error retrieving information: '') s
          \<or> (\<exists>results. results \<noteq> []
                \<and> s = join ([10, 10] @ lit ''---'' @ [10, 10]) (formatted_chunks 1 results)))"
    proof cases
      case none
      then show ?thesis using no_results_message_hd by simp
    next
      case err
      then show ?thesis using error_message_hd [of "str_exn e"] by simp
    next
      case blocks
      then show ?thesis
        using formatted_chunks_join_hd [OF blocks(1), of "[10, 10] @ lit ''---'' @ [10, 10]" 1]
        by auto
    qed
    with r show ?thesis by blast
  qed
  let ?w0 = "w\<lparr>logs := logs w @ [(INFO, lit ''RAG query received: '' @ query)]\<rparr>"
  obtain s where s: "fst (retrieve_answer env query 3 ?w0) = Inr s" "s \<noteq> []"
    "hd s \<noteq> 78 \<or> s = no_results_message"
    using forms [of 3 ?w0] by blast
  have rag: "fst (rag env query w) = Context s"
    using s by (simp add: rag_fst)
  have "s \<noteq> lit ''No relevant information found in documents.''"
    using s(3) no_results_message_not_fallback by (auto simp: lit_def)
  then have nf: "fst (rag env query w) \<noteq> Context (lit ''No relevant information found in documents.'')"
    using rag by simp
  show ?thesis using forms [of k w] s rag nf by blast
qed



text \<open>
  On the concrete installation without an index the query builds one and the answer is
  the join of three blocks.
\<close>

theorem retrieve_answer_never_empty_witness:
  "fst (retrieve_answer example_env (lit ''spin'') 3 (world_of fresh_fs))
     = Inr (join ([10, 10] @ lit ''---'' @ [10, 10])
         (formatted_chunks 1 [example_page, example_page, example_page]))
   \<and> join ([10, 10] @ lit ''---'' @ [10, 10])
         (formatted_chunks 1 [example_page, example_page, example_page]) \<noteq> []"
proof -
  have a: "fst (retrieve_answer example_env (lit ''spin'') 3 (world_of fresh_fs))
     = Inr (join ([10, 10] @ lit ''---'' @ [10, 10])
         (formatted_chunks 1 [example_page, example_page, example_page]))"
    by (simp add: retrieve_answer_def retrieve_body_def check_index_def eval_defs Let_def
          numeral_3_eq_3)
  show ?thesis
    using retrieve_answer_never_empty [of example_env "lit ''spin''" 3 "world_of fresh_fs"] a
    by auto
qed

section \<open>Properties of the build\<close>

lemma bnd_Inr:
  assumes "bnd m k w = (Inr y, w')"
  obtains x w1 where "m w = (Inr x, w1)" and "k x w1 = (Inr y, w')"
  using assms by (auto simp: bnd_def split: prod.splits sum.splits)

lemma load_pdfs_keeps_fs:
  "load_pdfs env ps acc w = (r, w') \<Longrightarrow> fs w' = fs w \<and> history w' = history w"
proof (induction ps arbitrary: acc w)
  case Nil
  then show ?case by (auto simp: ret_def)
next
  case (Cons p ps)
  show ?case
  proof (cases "exists (fs w) p")
    case False
    then have "load_pdfs env ps acc (w\<lparr>logs := logs w @ [(ERROR, lit ''PDF file not found: '' @ path_str p)]\<rparr>) = (r, w')"
      using Cons.prems by (simp add: prog_defs)
    from Cons.IH [OF this] show ?thesis by simp
  next
    case True
    show ?thesis
    proof (cases "pdf_load env p")
      case (Inl e)
      then show ?thesis using True Cons.prems by (auto simp: prog_defs)
    next
      case (Inr docs)
      then obtain w1 where "load_pdfs env ps (acc @ docs) w1 = (r, w')"
        and "fs w1 = fs w" "history w1 = history w"
        using True Cons.prems by (auto simp: prog_defs)
      with Cons.IH [of "acc @ docs" w1] show ?thesis by simp
    qed
  qed
qed

lemma load_documents_keeps_fs:
  "load_documents env ps w = (r, w') \<Longrightarrow> fs w' = fs w \<and> history w' = history w"
  using load_pdfs_keeps_fs [of env ps "[]" w]
  by (auto simp: load_documents_def prog_defs split: prod.splits sum.splits if_splits)









lemma makedirs_Inr:
  "makedirs env d w = (Inr u, w') \<Longrightarrow>
     io_fault env (MakeDirs d) = None \<and> \<not> blocked (fs w) d \<and>
     w' = w\<lparr>fs := with_dirs (fs w) d, history := history w @ [with_dirs (fs w) d]\<rparr>"
  by (auto simp: makedirs_def set_fs_def split: option.splits if_splits)

lemma write_file_Inr:
  "write_file env p c w = (Inr u, w') \<Longrightarrow>
     io_fault env (WriteFile p) = None \<and> fs w (butlast p) = Some Dir \<and> fs w p \<noteq> Some Dir \<and>
     w' = w\<lparr>fs := (fs w)(p \<mapsto> c), history := history w @ [(fs w)(p \<mapsto> c)]\<rparr>"
  by (auto simp: write_file_def set_fs_def split: option.splits if_splits)

lemma save_local_Inr:
  assumes "save_local env ix d w = (Inr u, w')"
  shows "w' = w\<lparr>fs := (fs w)(d @ [''index.faiss''] \<mapsto> IndexFile ix, d @ [''index.pkl''] \<mapsto> IndexFile ix),
                 history := history w @ [(fs w)(d @ [''index.faiss''] \<mapsto> IndexFile ix),
                    (fs w)(d @ [''index.faiss''] \<mapsto> IndexFile ix, d @ [''index.pkl''] \<mapsto> IndexFile ix)]\<rparr>"
proof -
  from assms obtain x w1 where
    a: "write_file env (d @ [''index.faiss'']) (IndexFile ix) w = (Inr x, w1)"
    and b: "write_file env (d @ [''index.pkl'']) (IndexFile ix) w1 = (Inr u, w')"
    unfolding save_local_def by (rule bnd_Inr)
  show ?thesis using write_file_Inr [OF a] write_file_Inr [OF b] by simp
qed

lemma create_vector_store_Inr:
  "create_vector_store env ps w = (Inr ix, w') \<Longrightarrow> create_body env ps w = (Inr ix, w')"
  by (auto simp: create_vector_store_def prog_defs split: prod.splits sum.splits)

lemma create_body_Inr:
  assumes "create_body env ps w = (Inr ix, w')"
  shows "fs w' = (with_dirs (fs w) (VECTOR_STORE_DIR env))
                   (VECTOR_STORE_DIR env @ [''index.faiss''] \<mapsto> IndexFile ix,
                    VECTOR_STORE_DIR env @ [''index.pkl''] \<mapsto> IndexFile ix)"
    and "history w' = history w @
           [with_dirs (fs w) (VECTOR_STORE_DIR env),
            (with_dirs (fs w) (VECTOR_STORE_DIR env))
              (VECTOR_STORE_DIR env @ [''index.faiss''] \<mapsto> IndexFile ix),
            (with_dirs (fs w) (VECTOR_STORE_DIR env))
              (VECTOR_STORE_DIR env @ [''index.faiss''] \<mapsto> IndexFile ix,
               VECTOR_STORE_DIR env @ [''index.pkl''] \<mapsto> IndexFile ix)]"
proof -
  let ?d = "VECTOR_STORE_DIR env"
  from assms obtain all_docs w1 where
    s1: "load_documents env ps w = (Inr all_docs, w1)" and r1: "(\<lambda>all_docs.
     bnd (lift (split_documents env all_docs)) (\<lambda>chunks.
     bnd (logger INFO (lit ''Created '' @ str_nat (length chunks) @ lit '' chunks'')) (\<lambda>_.
     bnd (logger INFO (lit ''Creating embeddings...'')) (\<lambda>_.
     bnd (new_embeddings_prog env) (\<lambda>_.
     bnd (lift (from_documents env chunks)) (\<lambda>vector_store.
     bnd (makedirs env (VECTOR_STORE_DIR env)) (\<lambda>_.
     bnd (save_local env vector_store (VECTOR_STORE_DIR env)) (\<lambda>_.
     bnd (logger INFO (lit ''Vector store saved to '' @ path_str (VECTOR_STORE_DIR env))) (\<lambda>_.
       ret vector_store))))))))) all_docs w1 = (Inr ix, w')"
    unfolding create_body_def by (rule bnd_Inr)
  have k1: "fs w1 = fs w" "history w1 = history w"
    using load_documents_keeps_fs [OF s1] by simp_all
  from r1 obtain chunks w2 where
    s2: "lift (split_documents env all_docs) w1 = (Inr chunks, w2)" and r2: "
     bnd (logger INFO (lit ''Created '' @ str_nat (length chunks) @ lit '' chunks'')) (\<lambda>_.
     bnd (logger INFO (lit ''Creating embeddings...'')) (\<lambda>_.
     bnd (new_embeddings_prog env) (\<lambda>_.
     bnd (lift (from_documents env chunks)) (\<lambda>vector_store.
     bnd (makedirs env (VECTOR_STORE_DIR env)) (\<lambda>_.
     bnd (save_local env vector_store (VECTOR_STORE_DIR env)) (\<lambda>_.
     bnd (logger INFO (lit ''Vector store saved to '' @ path_str (VECTOR_STORE_DIR env))) (\<lambda>_.
       ret vector_store))))))) w2 = (Inr ix, w')"
    by (rule bnd_Inr)
  have k2: "fs w2 = fs w" "history w2 = history w"
    using s2 k1 by (auto simp: lift_def)
  from r2 obtain u3 w3 where
    s3: "logger INFO (lit ''Created '' @ str_nat (length chunks) @ lit '' chunks'') w2 = (Inr u3, w3)" and r3: "
     bnd (logger INFO (lit ''Creating embeddings...'')) (\<lambda>_.
     bnd (new_embeddings_prog env) (\<lambda>_.
     bnd (lift (from_documents env chunks)) (\<lambda>vector_store.
     bnd (makedirs env (VECTOR_STORE_DIR env)) (\<lambda>_.
     bnd (save_local env vector_store (VECTOR_STORE_DIR env)) (\<lambda>_.
     bnd (logger INFO (lit ''Vector store saved to '' @ path_str (VECTOR_STORE_DIR env))) (\<lambda>_.
       ret vector_store)))))) w3 = (Inr ix, w')"
    by (rule bnd_Inr)
  have k3: "fs w3 = fs w" "history w3 = history w"
    using s3 k2 by (auto simp: logger_def)
  from r3 obtain u4 w4 where
    s4: "logger INFO (lit ''Creating embeddings...'') w3 = (Inr u4, w4)" and r4: "
     bnd (new_embeddings_prog env) (\<lambda>_.
     bnd (lift (from_documents env chunks)) (\<lambda>vector_store.
     bnd (makedirs env (VECTOR_STORE_DIR env)) (\<lambda>_.
     bnd (save_local env vector_store (VECTOR_STORE_DIR env)) (\<lambda>_.
     bnd (logger INFO (lit ''Vector store saved to '' @ path_str (VECTOR_STORE_DIR env))) (\<lambda>_.
       ret vector_store))))) w4 = (Inr ix, w')"
    by (rule bnd_Inr)
  have k4: "fs w4 = fs w" "history w4 = history w"
    using s4 k3 by (auto simp: logger_def)
  from r4 obtain u5 w5 where
    s5: "new_embeddings_prog env w4 = (Inr u5, w5)" and r5: "
     bnd (lift (from_documents env chunks)) (\<lambda>vector_store.
     bnd (makedirs env (VECTOR_STORE_DIR env)) (\<lambda>_.
     bnd (save_local env vector_store (VECTOR_STORE_DIR env)) (\<lambda>_.
     bnd (logger INFO (lit ''Vector store saved to '' @ path_str (VECTOR_STORE_DIR env))) (\<lambda>_.
       ret vector_store)))) w5 = (Inr ix, w')"
    by (rule bnd_Inr)
  have k5: "fs w5 = fs w" "history w5 = history w"
    using s5 k4 by (auto simp: new_embeddings_prog_def ret_def raise_def split: option.splits)
  from r5 obtain vector_store w6 where
    s6: "lift (from_documents env chunks) w5 = (Inr vector_store, w6)" and r6: "
     bnd (makedirs env (VECTOR_STORE_DIR env)) (\<lambda>_.
     bnd (save_local env vector_store (VECTOR_STORE_DIR env)) (\<lambda>_.
     bnd (logger INFO (lit ''Vector store saved to '' @ path_str (VECTOR_STORE_DIR env))) (\<lambda>_.
       ret vector_store))) w6 = (Inr ix, w')"
    by (rule bnd_Inr)
  have k6: "fs w6 = fs w" "history w6 = history w"
    using s6 k5 by (auto simp: lift_def)
  from r6 obtain u7 w7 where
    s7: "makedirs env ?d w6 = (Inr u7, w7)" and r7: "
     bnd (save_local env vector_store (VECTOR_STORE_DIR env)) (\<lambda>_.
     bnd (logger INFO (lit ''Vector store saved to '' @ path_str (VECTOR_STORE_DIR env))) (\<lambda>_.
       ret vector_store)) w7 = (Inr ix, w')"
    by (rule bnd_Inr)
  have k7: "fs w7 = with_dirs (fs w) ?d" "history w7 = history w @ [with_dirs (fs w) ?d]"
    using makedirs_Inr [OF s7] k6 by simp_all
  from r7 obtain u8 w8 where
    s8: "save_local env vector_store ?d w7 = (Inr u8, w8)" and r8: "
     bnd (logger INFO (lit ''Vector store saved to '' @ path_str (VECTOR_STORE_DIR env))) (\<lambda>_.
       ret vector_store) w8 = (Inr ix, w')"
    by (rule bnd_Inr)
  have e: "ix = vector_store" and k9: "fs w' = fs w8" "history w' = history w8"
    using r8 by (auto simp: prog_defs)
  show "fs w' = (with_dirs (fs w) ?d)
                   (?d @ [''index.faiss''] \<mapsto> IndexFile ix, ?d @ [''index.pkl''] \<mapsto> IndexFile ix)"
    using save_local_Inr [OF s8] k7 k9 e by simp
  show "history w' = history w @
           [with_dirs (fs w) ?d,
            (with_dirs (fs w) ?d)(?d @ [''index.faiss''] \<mapsto> IndexFile ix),
            (with_dirs (fs w) ?d)(?d @ [''index.faiss''] \<mapsto> IndexFile ix,
               ?d @ [''index.pkl''] \<mapsto> IndexFile ix)]"
    using save_local_Inr [OF s8] k7 k9 e by simp
qed

lemma with_dirs_elsewhere: "\<not> prefix p d \<Longrightarrow> with_dirs f d p = f p"
  by (simp add: with_dirs_def)


text \<open>
  C1, as the program has it. A build that succeeds saves the index in three steps, each
  on the live index directory: it creates the directory where it is missing, writes
  \<open>index.faiss\<close> into it, then writes \<open>index.pkl\<close> into it. No other state occurs, so
  nothing is written to a temporary location and nothing is moved; no path outside the
  index directory and its ancestors changes; and after the third step both required
  files hold the new index.
\<close>

theorem create_vector_store_saves_in_place:
  assumes "create_vector_store env pdf_files w = (Inr vector_store, w')"
  shows "\<exists>f1 f2 f3.
           f1 = with_dirs (fs w) (VECTOR_STORE_DIR env)
         \<and> f2 = f1(VECTOR_STORE_DIR env @ [''index.faiss''] \<mapsto> IndexFile vector_store)
         \<and> f3 = f2(VECTOR_STORE_DIR env @ [''index.pkl''] \<mapsto> IndexFile vector_store)
         \<and> history w' = history w @ [f1, f2, f3]
         \<and> fs w' = f3
         \<and> vector_store_exists env (fs w')
         \<and> (\<forall>f \<in> {f1, f2, f3}. \<forall>p.
               \<not> prefix p (VECTOR_STORE_DIR env) \<and> \<not> prefix (VECTOR_STORE_DIR env) p
                 \<longrightarrow> f p = fs w p)"
proof -
  let ?d = "VECTOR_STORE_DIR env"
  have b: "create_body env pdf_files w = (Inr vector_store, w')"
    using assms by (rule create_vector_store_Inr)
  have d: "with_dirs (fs w) ?d ?d \<noteq> None"
    by (simp add: with_dirs_def)
  have v: "vector_store_exists env (fs w')"
    using create_body_Inr(1) [OF b] d by (simp add: vector_store_exists_def exists_def)
  have o: "\<not> prefix ?d p \<Longrightarrow> p \<noteq> ?d @ [''index.faiss''] \<and> p \<noteq> ?d @ [''index.pkl'']" for p
    by auto
  show ?thesis
    using create_body_Inr [OF b] v o by (simp add: with_dirs_elsewhere)
qed


text \<open>On the concrete installation without an index, the build saves the index \<open>4\<close>.\<close>

theorem create_vector_store_saves_in_place_witness:
  "fst (create_vector_store example_env (PDF_FILES example_env) (world_of fresh_fs)) = Inr 4
   \<and> length (history (snd (create_vector_store example_env (PDF_FILES example_env)
                 (world_of fresh_fs)))) = 3
   \<and> fs (snd (create_vector_store example_env (PDF_FILES example_env) (world_of fresh_fs)))
        [''app'', ''quantum_index'', ''index.pkl''] = Some (IndexFile 4)
   \<and> vector_store_exists example_env
        (fs (snd (create_vector_store example_env (PDF_FILES example_env) (world_of fresh_fs))))"
proof -
  let ?r = "create_vector_store example_env (PDF_FILES example_env) (world_of fresh_fs)"
  have a: "fst ?r = Inr 4"
    by (simp add: eval_defs)
  then have h: "?r = (Inr 4, snd ?r)"
    by (metis prod.collapse)
  have "history (world_of fresh_fs) = []"
    by (simp add: world_of_def)
  moreover have "VECTOR_STORE_DIR example_env @ [''index.pkl'']
                   = [''app'', ''quantum_index'', ''index.pkl'']"
    by (simp add: example_defs)
  ultimately show ?thesis
    using create_vector_store_saves_in_place [OF h] a by auto
qed


text \<open>
  C1 as the specification words it fails: on the concrete installation with the index
  \<open>0\<close> in place, the second state of the build has the data file of the new index \<open>4\<close>
  beside the metadata file of the old index \<open>0\<close>, in the live directory.
\<close>

theorem create_vector_store_partial_index_counterexample:
  "vector_store_exists example_env (fs (world_of indexed_fs))
   \<and> (history (snd (create_vector_store example_env (PDF_FILES example_env)
                 (world_of indexed_fs))) ! 1)
        [''app'', ''quantum_index'', ''index.faiss''] = Some (IndexFile 4)
   \<and> (history (snd (create_vector_store example_env (PDF_FILES example_env)
                 (world_of indexed_fs))) ! 1)
        [''app'', ''quantum_index'', ''index.pkl''] = Some (IndexFile 0)"
  by (simp add: eval_defs vector_store_exists_def)

lemma save_local_faults:
  assumes "save_local env ix d w = (Inr u, w')"
  shows "io_fault env (WriteFile (d @ [''index.faiss''])) = None"
    and "io_fault env (WriteFile (d @ [''index.pkl''])) = None"
proof -
  from assms obtain x w1 where
    a: "write_file env (d @ [''index.faiss'']) (IndexFile ix) w = (Inr x, w1)"
    and b: "write_file env (d @ [''index.pkl'']) (IndexFile ix) w1 = (Inr u, w')"
    unfolding save_local_def by (rule bnd_Inr)
  show "io_fault env (WriteFile (d @ [''index.faiss''])) = None"
    using write_file_Inr [OF a] by simp
  show "io_fault env (WriteFile (d @ [''index.pkl''])) = None"
    using write_file_Inr [OF b] by simp
qed

lemma create_body_Inr_conditions:
  assumes "create_body env ps w = (Inr ix, w')"
  shows "\<exists>all_docs chunks wa.
           load_documents env ps w = (Inr all_docs, wa)
         \<and> split_documents env all_docs = Inr chunks
         \<and> new_embeddings env = None
         \<and> from_documents env chunks = Inr ix
         \<and> io_fault env (MakeDirs (VECTOR_STORE_DIR env)) = None
         \<and> \<not> blocked (fs w) (VECTOR_STORE_DIR env)
         \<and> io_fault env (WriteFile (VECTOR_STORE_DIR env @ [''index.faiss''])) = None
         \<and> io_fault env (WriteFile (VECTOR_STORE_DIR env @ [''index.pkl''])) = None"
proof -
  let ?d = "VECTOR_STORE_DIR env"
  from assms obtain all_docs w1 where
    s1: "load_documents env ps w = (Inr all_docs, w1)" and r1: "
     bnd (lift (split_documents env all_docs)) (\<lambda>chunks.
     bnd (logger INFO (lit ''Created '' @ str_nat (length chunks) @ lit '' chunks'')) (\<lambda>_.
     bnd (logger INFO (lit ''Creating embeddings...'')) (\<lambda>_.
     bnd (new_embeddings_prog env) (\<lambda>_.
     bnd (lift (from_documents env chunks)) (\<lambda>vector_store.
     bnd (makedirs env (VECTOR_STORE_DIR env)) (\<lambda>_.
     bnd (save_local env vector_store (VECTOR_STORE_DIR env)) (\<lambda>_.
     bnd (logger INFO (lit ''Vector store saved to '' @ path_str (VECTOR_STORE_DIR env))) (\<lambda>_.
       ret vector_store)))))))) w1 = (Inr ix, w')"
    unfolding create_body_def by (rule bnd_Inr)
  have k1: "fs w1 = fs w"
    using load_documents_keeps_fs [OF s1] by simp
  from r1 obtain chunks w2 where
    s2: "lift (split_documents env all_docs) w1 = (Inr chunks, w2)" and r2: "
     bnd (logger INFO (lit ''Created '' @ str_nat (length chunks) @ lit '' chunks'')) (\<lambda>_.
     bnd (logger INFO (lit ''Creating embeddings...'')) (\<lambda>_.
     bnd (new_embeddings_prog env) (\<lambda>_.
     bnd (lift (from_documents env chunks)) (\<lambda>vector_store.
     bnd (makedirs env (VECTOR_STORE_DIR env)) (\<lambda>_.
     bnd (save_local env vector_store (VECTOR_STORE_DIR env)) (\<lambda>_.
     bnd (logger INFO (lit ''Vector store saved to '' @ path_str (VECTOR_STORE_DIR env))) (\<lambda>_.
       ret vector_store))))))) w2 = (Inr ix, w')"
    by (rule bnd_Inr)
  have c2: "split_documents env all_docs = Inr chunks" and k2: "fs w2 = fs w"
    using s2 k1 by (auto simp: lift_def)
  from r2 obtain u3 w3 where
    s3: "logger INFO (lit ''Created '' @ str_nat (length chunks) @ lit '' chunks'') w2 = (Inr u3, w3)" and r3: "
     bnd (logger INFO (lit ''Creating embeddings...'')) (\<lambda>_.
     bnd (new_embeddings_prog env) (\<lambda>_.
     bnd (lift (from_documents env chunks)) (\<lambda>vector_store.
     bnd (makedirs env (VECTOR_STORE_DIR env)) (\<lambda>_.
     bnd (save_local env vector_store (VECTOR_STORE_DIR env)) (\<lambda>_.
     bnd (logger INFO (lit ''Vector store saved to '' @ path_str (VECTOR_STORE_DIR env))) (\<lambda>_.
       ret vector_store)))))) w3 = (Inr ix, w')"
    by (rule bnd_Inr)
  have k3: "fs w3 = fs w"
    using s3 k2 by (auto simp: logger_def)
  from r3 obtain u4 w4 where
    s4: "logger INFO (lit ''Creating embeddings...'') w3 = (Inr u4, w4)" and r4: "
     bnd (new_embeddings_prog env) (\<lambda>_.
     bnd (lift (from_documents env chunks)) (\<lambda>vector_store.
     bnd (makedirs env (VECTOR_STORE_DIR env)) (\<lambda>_.
     bnd (save_local env vector_store (VECTOR_STORE_DIR env)) (\<lambda>_.
     bnd (logger INFO (lit ''Vector store saved to '' @ path_str (VECTOR_STORE_DIR env))) (\<lambda>_.
       ret vector_store))))) w4 = (Inr ix, w')"
    by (rule bnd_Inr)
  have k4: "fs w4 = fs w"
    using s4 k3 by (auto simp: logger_def)
  from r4 obtain u5 w5 where
    s5: "new_embeddings_prog env w4 = (Inr u5, w5)" and r5: "
     bnd (lift (from_documents env chunks)) (\<lambda>vector_store.
     bnd (makedirs env (VECTOR_STORE_DIR env)) (\<lambda>_.
     bnd (save_local env vector_store (VECTOR_STORE_DIR env)) (\<lambda>_.
     bnd (logger INFO (lit ''Vector store saved to '' @ path_str (VECTOR_STORE_DIR env))) (\<lambda>_.
       ret vector_store)))) w5 = (Inr ix, w')"
    by (rule bnd_Inr)
  have c5: "new_embeddings env = None" and k5: "fs w5 = fs w"
    using s5 k4 by (auto simp: new_embeddings_prog_def ret_def raise_def split: option.splits)
  from r5 obtain vector_store w6 where
    s6: "lift (from_documents env chunks) w5 = (Inr vector_store, w6)" and r6: "
     bnd (makedirs env (VECTOR_STORE_DIR env)) (\<lambda>_.
     bnd (save_local env vector_store (VECTOR_STORE_DIR env)) (\<lambda>_.
     bnd (logger INFO (lit ''Vector store saved to '' @ path_str (VECTOR_STORE_DIR env))) (\<lambda>_.
       ret vector_store))) w6 = (Inr ix, w')"
    by (rule bnd_Inr)
  have c6: "from_documents env chunks = Inr vector_store" and k6: "fs w6 = fs w"
    using s6 k5 by (auto simp: lift_def)
  from r6 obtain u7 w7 where
    s7: "makedirs env ?d w6 = (Inr u7, w7)" and r7: "
     bnd (save_local env vector_store (VECTOR_STORE_DIR env)) (\<lambda>_.
     bnd (logger INFO (lit ''Vector store saved to '' @ path_str (VECTOR_STORE_DIR env))) (\<lambda>_.
       ret vector_store)) w7 = (Inr ix, w')"
    by (rule bnd_Inr)
  have c7: "io_fault env (MakeDirs ?d) = None" "\<not> blocked (fs w) ?d"
    using makedirs_Inr [OF s7] k6 by simp_all
  from r7 obtain u8 w8 where
    s8: "save_local env vector_store ?d w7 = (Inr u8, w8)" and r8: "
     bnd (logger INFO (lit ''Vector store saved to '' @ path_str (VECTOR_STORE_DIR env))) (\<lambda>_.
       ret vector_store) w8 = (Inr ix, w')"
    by (rule bnd_Inr)
  have e: "ix = vector_store"
    using r8 by (auto simp: prog_defs)
  show ?thesis
    using s1 c2 c5 c6 c7 save_local_faults [OF s8] e by blast
qed


lemma blocked_iff: "blocked f d \<longleftrightarrow> (\<exists>p. prefix p d \<and> f p \<noteq> None \<and> f p \<noteq> Some Dir)"
  by (auto simp: blocked_def list_ex_iff in_set_prefixes)

lemma with_dirs_self: "\<not> blocked f d \<Longrightarrow> with_dirs f d d = Some Dir"
  by (auto simp: blocked_iff with_dirs_def)

lemma with_dirs_below: "with_dirs f d (d @ [name]) = f (d @ [name])"
  by (simp add: with_dirs_def)

lemma create_vector_store_runs:
  assumes "fst (load_documents env ps w) = Inr all_docs"
    and "split_documents env all_docs = Inr chunks"
    and "new_embeddings env = None"
    and "from_documents env chunks = Inr ix"
    and "io_fault env (MakeDirs (VECTOR_STORE_DIR env)) = None"
    and "\<not> blocked (fs w) (VECTOR_STORE_DIR env)"
    and "io_fault env (WriteFile (VECTOR_STORE_DIR env @ [''index.faiss''])) = None"
    and "io_fault env (WriteFile (VECTOR_STORE_DIR env @ [''index.pkl''])) = None"
    and "fs w (VECTOR_STORE_DIR env @ [''index.faiss'']) \<noteq> Some Dir"
    and "fs w (VECTOR_STORE_DIR env @ [''index.pkl'']) \<noteq> Some Dir"
  shows "fst (create_vector_store env ps w) = Inr ix"
proof -
  let ?d = "VECTOR_STORE_DIR env"
  obtain wa where la: "load_documents env ps w = (Inr all_docs, wa)"
    using assms(1) by (metis prod.collapse)
  have k: "fs wa = fs w"
    using load_documents_keeps_fs [OF la] by simp
  have d: "with_dirs (fs w) ?d ?d = Some Dir"
    using assms(6) by (rule with_dirs_self)
  show ?thesis
    using la k d assms(2-10)
    by (simp add: create_vector_store_def create_body_def new_embeddings_prog_def save_local_def
          makedirs_def write_file_def with_dirs_below prog_defs)
qed

lemma load_pdfs_fst_cong:
  assumes "\<forall>p \<in> set ps. exists (fs v) p = exists (fs w) p"
  shows "fst (load_pdfs env ps all_docs v) = fst (load_pdfs env ps all_docs w)"
  using assms
proof (induction ps arbitrary: all_docs v w)
  case Nil
  show ?case by (simp add: ret_def)
next
  case (Cons p ps)
  have e: "exists (fs v) p = exists (fs w) p" using Cons.prems by simp
  have r: "fst (load_pdfs env ps docs (v\<lparr>logs := a\<rparr>)) = fst (load_pdfs env ps docs (w\<lparr>logs := b\<rparr>))"
    for docs a b
    by (rule Cons.IH) (use Cons.prems in simp)
  show ?case
  proof (cases "exists (fs w) p")
    case False
    then show ?thesis using e r by (simp add: prog_defs)
  next
    case True
    then show ?thesis using e r by (cases "pdf_load env p") (simp_all add: prog_defs)
  qed
qed

lemma load_documents_fst_cong:
  assumes "\<forall>p \<in> set ps. exists (fs v) p = exists (fs w) p"
  shows "fst (load_documents env ps v) = fst (load_documents env ps w)"
proof -
  have "fst (load_documents env ps u) =
          (case fst (load_pdfs env ps [] u) of
             Inl e \<Rightarrow> Inl e
           | Inr all_docs \<Rightarrow>
               if all_docs = [] then Inl (ValueError (lit ''No documents loaded from PDFs''))
               else Inr all_docs)" for u :: "'a world"
    by (auto simp: load_documents_def prog_defs split: prod.splits sum.splits)
  then show ?thesis
    using load_pdfs_fst_cong [OF assms, of env "[]"] by simp
qed

lemma getsizes_conditions:
  "getsizes env ps w = (Inr u, w') \<Longrightarrow>
     list_all (\<lambda>p. io_fault env (GetSize p) = None \<and> fs w p \<noteq> None) ps"
proof (induction ps arbitrary: w)
  case Nil
  show ?case by simp
next
  case (Cons p ps)
  from Cons.prems obtain x w1 where a: "getsize env p w = (Inr x, w1)"
    and b: "getsizes env ps w1 = (Inr u, w')"
    by (auto elim: bnd_Inr)
  have "w1 = w \<and> io_fault env (GetSize p) = None \<and> fs w p \<noteq> None"
    using a by (auto simp: getsize_def split: option.splits if_splits)
  with Cons.IH [OF b] show ?case by simp
qed

lemma getsizes_runs:
  "list_all (\<lambda>p. io_fault env (GetSize p) = None \<and> fs w p \<noteq> None) ps \<Longrightarrow>
     getsizes env ps w = (Inr (), w)"
  by (induction ps) (simp_all add: ret_def bnd_def getsize_def)


section \<open>Properties of the rebuild script\<close>

lemma rmtree_Inr:
  "rmtree env d w = (Inr u, w') \<Longrightarrow>
     io_fault env (RmTree d) = None \<and> fs w d = Some Dir \<and>
     w' = w\<lparr>fs := without_tree (fs w) d, history := history w @ [without_tree (fs w) d]\<rparr>"
  by (auto simp: rmtree_def set_fs_def split: option.splits if_splits)

lemma getsizes_Inr: "getsizes env ps w = (Inr u, w') \<Longrightarrow> w' = w"
proof (induction ps arbitrary: w)
  case Nil
  then show ?case by (simp add: ret_def)
next
  case (Cons p ps)
  from Cons.prems obtain x w1 where a: "getsize env p w = (Inr x, w1)"
    and b: "getsizes env ps w1 = (Inr u, w')"
    by (auto elim: bnd_Inr)
  have "w1 = w" using a by (auto simp: getsize_def split: option.splits if_splits)
  with Cons.IH [OF b] show ?case by simp
qed

lemma create_vector_store_valid:
  assumes "create_vector_store env ps w = (Inr ix, w')"
  shows "vector_store_exists env (fs w')"
proof -
  have "with_dirs (fs w) (VECTOR_STORE_DIR env) (VECTOR_STORE_DIR env) \<noteq> None"
    by (simp add: with_dirs_def)
  then show ?thesis
    using create_body_Inr(1) [OF create_vector_store_Inr [OF assms]]
    by (simp add: vector_store_exists_def exists_def)
qed


lemma rebuild_SUCCESS_full:
  assumes "rebuild env w = (Inr SUCCESS, w')"
  obtains w0 ix where
    "if exists (fs w) (VECTOR_STORE_DIR env)
     then fs w (VECTOR_STORE_DIR env) = Some Dir
          \<and> w0 = w\<lparr>fs := without_tree (fs w) (VECTOR_STORE_DIR env),
                    history := history w @ [without_tree (fs w) (VECTOR_STORE_DIR env)]\<rparr>
     else w0 = w"
    and "getsizes env (PDF_FILES env) w0 = (Inr (), w0)"
    and "create_vector_store env (PDF_FILES env) w0 = (Inr ix, w')"
proof -
  let ?d = "VECTOR_STORE_DIR env"
  from assms obtain u1 w1 where
    s1: "(if exists (fs w) ?d then rmtree env ?d w else ret () w) = (Inr u1, w1)"
    and r1: "bnd (getsizes env (PDF_FILES env)) (\<lambda>_.
       try_except
         (bnd (create_vector_store env (PDF_FILES env)) (\<lambda>vector_store. ret SUCCESS))
         (\<lambda>e. ret (ERROR_BANNER (str_exn e)))) w1 = (Inr SUCCESS, w')"
    unfolding rebuild_def by (rule bnd_Inr)
  from r1 obtain u2 w2 where
    s2: "getsizes env (PDF_FILES env) w1 = (Inr u2, w2)"
    and r2: "try_except
         (bnd (create_vector_store env (PDF_FILES env)) (\<lambda>vector_store. ret SUCCESS))
         (\<lambda>e. ret (ERROR_BANNER (str_exn e))) w2 = (Inr SUCCESS, w')"
    by (rule bnd_Inr)
  have e2: "w2 = w1" using s2 by (rule getsizes_Inr)
  have g: "getsizes env (PDF_FILES env) w1 = (Inr (), w1)"
    using s2 e2 by simp
  from r2 obtain ix where c: "create_vector_store env (PDF_FILES env) w1 = (Inr ix, w')"
    unfolding e2 by (auto simp: try_except_def bnd_def ret_def split: prod.splits sum.splits)
  have "if exists (fs w) ?d
     then fs w ?d = Some Dir
          \<and> w1 = w\<lparr>fs := without_tree (fs w) ?d, history := history w @ [without_tree (fs w) ?d]\<rparr>
     else w1 = w"
    using s1 rmtree_Inr [of env ?d w u1 w1] by (auto simp: ret_def split: if_splits)
  then show ?thesis using g c that by blast
qed

lemma rebuild_runs:
  assumes "fs w (VECTOR_STORE_DIR env) = Some Dir"
    and "io_fault env (RmTree (VECTOR_STORE_DIR env)) = None"
    and "getsizes env (PDF_FILES env)
           (w\<lparr>fs := without_tree (fs w) (VECTOR_STORE_DIR env),
              history := history w @ [without_tree (fs w) (VECTOR_STORE_DIR env)]\<rparr>)
         = (Inr (), w\<lparr>fs := without_tree (fs w) (VECTOR_STORE_DIR env),
              history := history w @ [without_tree (fs w) (VECTOR_STORE_DIR env)]\<rparr>)"
    and "fst (create_vector_store env (PDF_FILES env)
           (w\<lparr>fs := without_tree (fs w) (VECTOR_STORE_DIR env),
              history := history w @ [without_tree (fs w) (VECTOR_STORE_DIR env)]\<rparr>)) = Inr ix"
  shows "fst (rebuild env w) = Inr SUCCESS"
  using assms
  by (auto simp: rebuild_def exists_def rmtree_def set_fs_def bnd_def try_except_def ret_def
        split: prod.splits sum.splits)

lemma pdf_paths:
  assumes "p \<in> set (PDF_FILES env)"
  shows "\<not> prefix (VECTOR_STORE_DIR env) p" and "\<not> prefix p (VECTOR_STORE_DIR env)"
  using assms by (auto simp: PDF_FILES_def VECTOR_STORE_DIR_def)

lemma rebuild_gap:
  assumes "rebuild env w = (Inr SUCCESS, w')"
    and "exists (fs w) (VECTOR_STORE_DIR env)"
  shows "\<exists>g0 g1 g2.
           history w' = history w @ [g0, g1, g2, fs w']
         \<and> g0 = without_tree (fs w) (VECTOR_STORE_DIR env)
         \<and> \<not> exists g0 (VECTOR_STORE_DIR env @ [''index.faiss''])
         \<and> \<not> exists g0 (VECTOR_STORE_DIR env @ [''index.pkl''])
         \<and> \<not> exists g1 (VECTOR_STORE_DIR env @ [''index.faiss''])
         \<and> \<not> exists g1 (VECTOR_STORE_DIR env @ [''index.pkl''])
         \<and> \<not> exists g2 (VECTOR_STORE_DIR env @ [''index.pkl''])
         \<and> \<not> vector_store_exists env g0
         \<and> \<not> vector_store_exists env g1
         \<and> \<not> vector_store_exists env g2
         \<and> vector_store_exists env (fs w')"
proof -
  let ?d = "VECTOR_STORE_DIR env"
  let ?g0 = "without_tree (fs w) ?d"
  from assms(1) obtain w0 ix where
    a: "if exists (fs w) ?d
        then fs w ?d = Some Dir \<and> w0 = w\<lparr>fs := ?g0, history := history w @ [?g0]\<rparr>
        else w0 = w"
    and c: "create_vector_store env (PDF_FILES env) w0 = (Inr ix, w')"
    by (rule rebuild_SUCCESS_full)
  have w0: "fs w0 = ?g0" "history w0 = history w @ [?g0]"
    using a assms(2) by simp_all
  note b = create_body_Inr [OF create_vector_store_Inr [OF c]]
  let ?g1 = "with_dirs ?g0 ?d"
  let ?g2 = "?g1(?d @ [''index.faiss''] \<mapsto> IndexFile ix)"
  have h: "history w' = history w @ [?g0, ?g1, ?g2, fs w']"
    using b w0 by simp
  have n0: "?g0 (?d @ [''index.faiss'']) = None" "?g0 (?d @ [''index.pkl'']) = None"
    by (simp_all add: without_tree_def)
  have n1: "?g1 (?d @ [''index.faiss'']) = None" "?g1 (?d @ [''index.pkl'']) = None"
    using n0 by (simp_all add: with_dirs_below)
  have n2: "?g2 (?d @ [''index.pkl'']) = None"
    using n1 by simp
  have v: "vector_store_exists env (fs w')"
    using c by (rule create_vector_store_valid)
  show ?thesis
    using h n0 n1 n2 v by (simp add: vector_store_exists_def exists_def)
qed


lemma rebuild_again:
  assumes "rebuild env w = (Inr SUCCESS, w1)"
    and "io_fault env (RmTree (VECTOR_STORE_DIR env)) = None"
  shows "fst (rebuild env w1) = Inr SUCCESS"
proof -
  let ?d = "VECTOR_STORE_DIR env"
  let ?faiss = "?d @ [''index.faiss'']"
  let ?pkl = "?d @ [''index.pkl'']"
  from assms(1) obtain w0 ix where
    g: "getsizes env (PDF_FILES env) w0 = (Inr (), w0)"
    and c: "create_vector_store env (PDF_FILES env) w0 = (Inr ix, w1)"
    by (rule rebuild_SUCCESS_full)
  note body = create_vector_store_Inr [OF c]
  have f1: "fs w1 = (with_dirs (fs w0) ?d)(?faiss \<mapsto> IndexFile ix, ?pkl \<mapsto> IndexFile ix)"
    using body by (rule create_body_Inr(1))
  from create_body_Inr_conditions [OF body] obtain all_docs chunks wa where
    l: "load_documents env (PDF_FILES env) w0 = (Inr all_docs, wa)"
    and sp: "split_documents env all_docs = Inr chunks"
    and em: "new_embeddings env = None"
    and fd: "from_documents env chunks = Inr ix"
    and mk: "io_fault env (MakeDirs ?d) = None"
    and nb: "\<not> blocked (fs w0) ?d"
    and wf: "io_fault env (WriteFile ?faiss) = None"
    and wp: "io_fault env (WriteFile ?pkl) = None"
    by blast
  let ?g0 = "without_tree (fs w1) ?d"
  let ?v = "w1\<lparr>fs := ?g0, history := history w1 @ [?g0]\<rparr>"
  have dir: "fs w1 ?d = Some Dir"
    using with_dirs_self [OF nb] by (simp add: f1)
  have outside: "?g0 q = with_dirs (fs w0) ?d q" if "\<not> prefix ?d q" for q
  proof -
    have "q \<noteq> ?faiss" and "q \<noteq> ?pkl" using that by auto
    then show ?thesis using that by (simp add: without_tree_def f1)
  qed
  have pdf: "?g0 p = fs w0 p" if "p \<in> set (PDF_FILES env)" for p
    using outside [OF pdf_paths(1) [OF that]] pdf_paths(2) [OF that] by (simp add: with_dirs_def)
  have sizes: "getsizes env (PDF_FILES env) ?v = (Inr (), ?v)"
  proof (rule getsizes_runs)
    have "list_all (\<lambda>p. io_fault env (GetSize p) = None \<and> fs w0 p \<noteq> None) (PDF_FILES env)"
      using g by (rule getsizes_conditions)
    then show "list_all (\<lambda>p. io_fault env (GetSize p) = None \<and> fs ?v p \<noteq> None) (PDF_FILES env)"
      using pdf by (simp add: list_all_iff)
  qed
  have "\<forall>p \<in> set (PDF_FILES env). exists (fs ?v) p = exists (fs w0) p"
    using pdf by (simp add: exists_def)
  then have "fst (load_documents env (PDF_FILES env) ?v) = fst (load_documents env (PDF_FILES env) w0)"
    by (rule load_documents_fst_cong)
  then have l': "fst (load_documents env (PDF_FILES env) ?v) = Inr all_docs"
    using l by simp
  have nb': "\<not> blocked (fs ?v) ?d"
  proof -
    have "?g0 q = None \<or> ?g0 q = Some Dir" if q: "prefix q ?d" for q
    proof (cases "q = ?d")
      case True
      then show ?thesis by (simp add: without_tree_def)
    next
      case False
      then have "\<not> prefix ?d q" using q by auto
      moreover have "fs w0 q = None \<or> fs w0 q = Some Dir"
        using nb q by (auto simp: blocked_iff)
      ultimately show ?thesis
        using outside [of q] by (auto simp: with_dirs_def)
    qed
    then show ?thesis by (auto simp: blocked_iff)
  qed
  have gone: "fs ?v ?faiss \<noteq> Some Dir" "fs ?v ?pkl \<noteq> Some Dir"
    by (simp_all add: without_tree_def)
  have "fst (create_vector_store env (PDF_FILES env) ?v) = Inr ix"
    using l' sp em fd mk nb' wf wp gone by (rule create_vector_store_runs)
  with dir assms(2) sizes show ?thesis
    by (rule rebuild_runs)
qed

text \<open>
  C2, as the program has it. The script deletes before it builds. A run that ends with
  the banner of success leaves both required files in the index directory; when the
  deletion of the index directory is not refused, a second run in a row succeeds as
  well and leaves both files again. A successful run that finds the index directory
  goes through four states: the file system without the directory, where neither
  required file exists; the directory, empty; the directory with \<open>index.faiss\<close> alone;
  and both files. In the first three there is no index, the old one and the new one
  alike: only the last state of the run has one.
\<close>

theorem rebuild_deletes_then_builds:
  assumes "rebuild env w = (Inr SUCCESS, w1)"
    and "io_fault env (RmTree (VECTOR_STORE_DIR env)) = None"
  shows "vector_store_exists env (fs w1)
         \<and> (\<exists>w2 g0 g1 g2.
               rebuild env w1 = (Inr SUCCESS, w2)
             \<and> vector_store_exists env (fs w2)
             \<and> history w2 = history w1 @ [g0, g1, g2, fs w2]
             \<and> g0 = without_tree (fs w1) (VECTOR_STORE_DIR env)
             \<and> \<not> exists g0 (VECTOR_STORE_DIR env @ [''index.faiss''])
             \<and> \<not> exists g0 (VECTOR_STORE_DIR env @ [''index.pkl''])
             \<and> \<not> exists g1 (VECTOR_STORE_DIR env @ [''index.faiss''])
             \<and> \<not> exists g1 (VECTOR_STORE_DIR env @ [''index.pkl''])
             \<and> \<not> exists g2 (VECTOR_STORE_DIR env @ [''index.pkl''])
             \<and> \<not> vector_store_exists env g0
             \<and> \<not> vector_store_exists env g1
             \<and> \<not> vector_store_exists env g2)
         \<and> (exists (fs w) (VECTOR_STORE_DIR env) \<longrightarrow>
               (\<exists>g0 g1 g2.
                  history w1 = history w @ [g0, g1, g2, fs w1]
                \<and> g0 = without_tree (fs w) (VECTOR_STORE_DIR env)
                \<and> \<not> vector_store_exists env g0
                \<and> \<not> vector_store_exists env g1
                \<and> \<not> vector_store_exists env g2))"
proof -
  from assms(1) obtain v ix where "create_vector_store env (PDF_FILES env) v = (Inr ix, w1)"
    by (rule rebuild_SUCCESS_full)
  then have v1: "vector_store_exists env (fs w1)"
    by (rule create_vector_store_valid)
  then have ex: "exists (fs w1) (VECTOR_STORE_DIR env)"
    by (simp add: vector_store_exists_def)
  have "fst (rebuild env w1) = Inr SUCCESS"
    using assms by (rule rebuild_again)
  then obtain w2 where r: "rebuild env w1 = (Inr SUCCESS, w2)"
    by (metis prod.collapse)
  have first: "\<exists>g0 g1 g2.
                  history w1 = history w @ [g0, g1, g2, fs w1]
                \<and> g0 = without_tree (fs w) (VECTOR_STORE_DIR env)
                \<and> \<not> vector_store_exists env g0
                \<and> \<not> vector_store_exists env g1
                \<and> \<not> vector_store_exists env g2"
    if "exists (fs w) (VECTOR_STORE_DIR env)"
    using rebuild_gap [OF assms(1) that] by blast
  have second: "\<exists>w2 g0 g1 g2.
               rebuild env w1 = (Inr SUCCESS, w2)
             \<and> vector_store_exists env (fs w2)
             \<and> history w2 = history w1 @ [g0, g1, g2, fs w2]
             \<and> g0 = without_tree (fs w1) (VECTOR_STORE_DIR env)
             \<and> \<not> exists g0 (VECTOR_STORE_DIR env @ [''index.faiss''])
             \<and> \<not> exists g0 (VECTOR_STORE_DIR env @ [''index.pkl''])
             \<and> \<not> exists g1 (VECTOR_STORE_DIR env @ [''index.faiss''])
             \<and> \<not> exists g1 (VECTOR_STORE_DIR env @ [''index.pkl''])
             \<and> \<not> exists g2 (VECTOR_STORE_DIR env @ [''index.pkl''])
             \<and> \<not> vector_store_exists env g0
             \<and> \<not> vector_store_exists env g1
             \<and> \<not> vector_store_exists env g2"
    using r rebuild_gap [OF r ex] by blast
  show ?thesis
    using v1 first second by blast
qed

text \<open>
  On the concrete installation without an index the first run succeeds, nothing is
  refused, and so the second run succeeds, through four states.
\<close>

theorem rebuild_deletes_then_builds_witness:
  "fst (rebuild example_env (world_of fresh_fs)) = Inr SUCCESS
   \<and> io_fault example_env (RmTree (VECTOR_STORE_DIR example_env)) = None
   \<and> fst (rebuild example_env (snd (rebuild example_env (world_of fresh_fs)))) = Inr SUCCESS
   \<and> vector_store_exists example_env
        (fs (snd (rebuild example_env (snd (rebuild example_env (world_of fresh_fs))))))
   \<and> length (history (snd (rebuild example_env (snd (rebuild example_env (world_of fresh_fs))))))
        = length (history (snd (rebuild example_env (world_of fresh_fs)))) + 4"
proof -
  let ?w1 = "snd (rebuild example_env (world_of fresh_fs))"
  have a: "fst (rebuild example_env (world_of fresh_fs)) = Inr SUCCESS"
    by (simp add: rebuild_def eval_defs)
  have h1: "rebuild example_env (world_of fresh_fs) = (Inr SUCCESS, ?w1)"
    using a by (metis prod.collapse)
  have h2: "io_fault example_env (RmTree (VECTOR_STORE_DIR example_env)) = None"
    by (simp add: example_env_def)
  from rebuild_deletes_then_builds [OF h1 h2] obtain w2 g0 g1 g2 where
    r: "rebuild example_env ?w1 = (Inr SUCCESS, w2)"
    and v: "vector_store_exists example_env (fs w2)"
    and h: "history w2 = history ?w1 @ [g0, g1, g2, fs w2]"
    by blast
  have w2: "w2 = snd (rebuild example_env ?w1)"
    using r by simp
  have f: "fst (rebuild example_env ?w1) = Inr SUCCESS"
    using r by simp
  have v': "vector_store_exists example_env (fs (snd (rebuild example_env ?w1)))"
    using v w2 by simp
  have "length (history w2) = length (history ?w1) + 4"
    using h by simp
  then have l': "length (history (snd (rebuild example_env ?w1))) = length (history ?w1) + 4"
    using w2 by simp
  show ?thesis
    using a h2 f v' l' by blast
qed

text \<open>
  C2 as the specification words it fails: on the concrete installation with an index in
  place, the run succeeds, and its first state has neither required file.
\<close>

theorem rebuild_gap_counterexample:
  "vector_store_exists example_env (fs (world_of indexed_fs))
   \<and> fst (rebuild example_env (world_of indexed_fs)) = Inr SUCCESS
   \<and> \<not> exists (history (snd (rebuild example_env (world_of indexed_fs))) ! 0)
          [''app'', ''quantum_index'', ''index.faiss'']
   \<and> \<not> exists (history (snd (rebuild example_env (world_of indexed_fs))) ! 0)
          [''app'', ''quantum_index'', ''index.pkl'']"
  by (simp add: rebuild_def vector_store_exists_def eval_defs)

section \<open>Properties of the chunker\<close>

lemma concat_split_on: "concat (split_on sep n cur s) = cur @ s"
  by (induction s arbitrary: n cur) auto

lemma concat_split_text: "concat (split_text seps s) = s"
proof (induction seps arbitrary: s)
  case Nil
  show ?case by simp
next
  case (Cons sep seps)
  have "concat (concat (map (split_text seps) ps)) = concat ps" for ps
    by (induction ps) (simp_all add: Cons.IH)
  then show ?case by (simp add: concat_split_on)
qed

lemma split_text_bounded:
  assumes "[] \<in> set seps"
  shows "\<forall>p \<in> set (split_text seps s). length p \<le> chunk_size"
  using assms
proof (induction seps arbitrary: s)
  case Nil
  then show ?case by simp
next
  case (Cons sep seps)
  show ?case
  proof (cases "sep = []")
    case True
    have "Suc 0 \<le> chunk_size" by (simp add: chunk_size_def)
    then show ?thesis using True by auto
  next
    case False
    then have "[] \<in> set seps" using Cons.prems by simp
    then show ?thesis using False Cons.IH by auto
  qed
qed

lemma merge_splits_bounded:
  assumes "\<forall>p \<in> set ps. length p \<le> chunk_size"
    and "length (ov @ fresh) \<le> chunk_size" and "length ov \<le> chunk_overlap"
  shows "\<forall>(o', f) \<in> set (merge_splits ov fresh ps).
           length (o' @ f) \<le> chunk_size \<and> length o' \<le> chunk_overlap"
  using assms
proof (induction ps arbitrary: ov fresh)
  case Nil
  then show ?case by simp
next
  case (Cons p ps)
  let ?t = "drop (length (ov @ fresh) - chunk_overlap) (ov @ fresh)"
  have ps: "\<forall>q \<in> set ps. length q \<le> chunk_size" and p: "length p \<le> chunk_size"
    using Cons.prems(1) by simp_all
  have t: "length ?t \<le> chunk_overlap" by simp
  show ?case
  proof (cases "length (ov @ fresh @ p) \<le> chunk_size")
    case True
    then show ?thesis
      using Cons.IH [of ov "fresh @ p"] ps Cons.prems(3) by simp
  next
    case False
    note big = this
    show ?thesis
    proof (cases "length (?t @ p) \<le> chunk_size")
      case True
      then show ?thesis
        using big Cons.IH [of ?t p] ps t Cons.prems(2,3) by (auto simp: Let_def)
    next
      case False
      then show ?thesis
        using big Cons.IH [of "[]" p] ps p Cons.prems(2,3) by (auto simp: Let_def)
    qed
  qed
qed

lemma merge_splits_fresh:
  "concat (map snd (merge_splits ov fresh ps)) = fresh @ concat ps"
  by (induction ps arbitrary: ov fresh) (auto simp: Let_def)

lemma merge_splits_chained:
  "suffix ov prev \<Longrightarrow> chained prev (merge_splits ov fresh ps)"
proof (induction ps arbitrary: ov fresh prev)
  case Nil
  then show ?case by simp
next
  case (Cons p ps)
  let ?t = "drop (length (ov @ fresh) - chunk_overlap) (ov @ fresh)"
  have st: "suffix ?t (ov @ fresh)" by (rule suffix_drop)
  show ?case
  proof (cases "length (ov @ fresh @ p) \<le> chunk_size")
    case True
    then show ?thesis using Cons.IH [OF Cons.prems] by simp
  next
    case False
    note big = this
    show ?thesis
    proof (cases "fresh = []")
      case True
      then have "suffix ?t prev" using st Cons.prems by (auto intro: suffix_order.trans)
      then show ?thesis
        using big True Cons.IH [of ?t prev p] Cons.IH [of "[]" prev p]
        by (auto simp: Let_def)
    next
      case False
      then show ?thesis
        using big Cons.prems Cons.IH [OF st, of p] Cons.IH [of "[]" "ov @ fresh" p]
        by (auto simp: Let_def)
    qed
  qed
qed


lemma separators_have_empty: "[] \<in> set separators"
  by (simp add: separators_def)

lemma page_chunks_bounded:
  "\<forall>(ov, fresh) \<in> set (page_chunks s).
     length (ov @ fresh) \<le> chunk_size \<and> length ov \<le> chunk_overlap"
  unfolding page_chunks_def
  by (rule merge_splits_bounded)
     (simp_all add: split_text_bounded [OF separators_have_empty])

lemma split_on_replicate:
  assumes "sep \<noteq> []" and "hd sep \<noteq> a"
  shows "split_on sep n cur (replicate k a) =
           (if cur @ replicate k a = [] then [] else [cur @ replicate k a])"
proof (induction k arbitrary: n cur)
  case 0
  show ?case by simp
next
  case (Suc k)
  have "\<not> prefix sep (a # replicate k a)"
    using assms by (cases sep) auto
  then show ?case
    using Suc [of "n - 1" "cur @ [a]"] by (simp add: replicate_app_Cons_same)
qed

lemma merge_splits_replicate:
  assumes "length (ov @ fresh) + k \<le> chunk_size"
  shows "merge_splits ov fresh (replicate k [a] @ ps) = merge_splits ov (fresh @ replicate k a) ps"
  using assms
proof (induction k arbitrary: fresh)
  case 0
  show ?case by simp
next
  case (Suc k)
  have "length (ov @ (fresh @ [a])) + k \<le> chunk_size"
    using Suc.prems by simp
  from Suc.IH [OF this] show ?case
    using Suc.prems by (simp add: replicate_app_Cons_same)
qed

lemma page_chunks_long_page:
  "page_chunks (replicate 900 97) = [([], replicate 800 97), (replicate 100 97, replicate 100 97)]"
proof -
  have big: "\<not> length (replicate 900 (97::nat)) \<le> chunk_size"
    by (simp add: chunk_size_def)
  have one: "split_on sep 0 [] (replicate 900 (97::nat)) = [replicate 900 97]"
    if "sep \<noteq> []" "hd sep \<noteq> 97" for sep
    using split_on_replicate [OF that, of 0 "[]" 900] by simp
  have "split_text separators (replicate 900 97) = map (\<lambda>c. [c]) (replicate 900 97)"
    using big one [of "[10, 10]"] one [of "[10]"] one [of "lit ''. ''"] one [of "lit '' ''"]
    by (simp add: separators_def lit_def)
  moreover have "replicate 900 [97::nat] = replicate 800 [97] @ [97] # replicate 99 [97] @ []"
  proof -
    have n: "(900::nat) = 800 + Suc 99" by simp
    have "replicate (800 + Suc 99) [97::nat] = replicate 800 [97] @ replicate (Suc 99) [97]"
      by (rule replicate_add)
    then show ?thesis by (simp only: n replicate_Suc append_Nil2)
  qed
  ultimately have s: "split_text separators (replicate 900 97)
                  = replicate 800 [97] @ [97] # replicate 99 [97] @ []"
    by simp
  have a: "merge_splits [] [] (replicate 800 [97] @ [97] # replicate 99 [97] @ [])
             = merge_splits [] ([] @ replicate 800 97) ([97] # replicate 99 [97] @ [])"
    by (rule merge_splits_replicate) (simp add: chunk_size_def)
  have b: "merge_splits [] (replicate 800 97) ([97] # replicate 99 [97] @ [])
             = ([], replicate 800 97) # merge_splits (replicate 100 97) [97] (replicate 99 [97] @ [])"
    by (simp add: chunk_size_def chunk_overlap_def Let_def)
  have c: "merge_splits (replicate 100 97) [97] (replicate 99 [97] @ [])
             = merge_splits (replicate 100 97) ([97] @ replicate 99 97) []"
    by (rule merge_splits_replicate) (simp add: chunk_size_def)
  have d: "[97] @ replicate 99 97 = replicate 100 (97::nat)"
  proof -
    have n: "(100::nat) = Suc 99" by simp
    show ?thesis by (simp only: n replicate_Suc append_Cons append_Nil)
  qed
  show ?thesis
    unfolding page_chunks_def s using a b c d by simp
qed

text \<open>
  C7, for the chunker as the specification describes it. Every chunk has at most 800
  characters. The chunks of a page are its text in order with overlaps: the new texts of
  the chunks in a row are the text of the page, each chunk begins with an overlap that
  is the end of the chunk before it, of at most 100 characters, and the first chunk of a
  page has none. The separators are tried in the configured priority: a text over the
  size is split on the first separator and its pieces on the separators that remain, the
  empty separator last.
\<close>

theorem chunks_bounded_with_overlap:
  "(\<forall>chunk \<in> set (chunk_documents docs). length (page_content chunk) \<le> 800)
   \<and> (\<forall>page \<in> set docs.
         concat (map snd (page_chunks (page_content page))) = page_content page
         \<and> chained [] (page_chunks (page_content page))
         \<and> (\<forall>(ov, fresh) \<in> set (page_chunks (page_content page)).
               length (ov @ fresh) \<le> 800 \<and> length ov \<le> 100))
   \<and> separators = [[10, 10], [10], lit ''. '', lit '' '', []]
   \<and> (\<forall>sep seps s. split_text (sep # seps) s =
         (if length s \<le> 800 then [s]
          else if sep = [] then map (\<lambda>c. [c]) s
          else concat (map (split_text seps) (split_on sep 0 [] s))))"
proof -
  have b: "\<forall>(ov, fresh) \<in> set (page_chunks s). length (ov @ fresh) \<le> 800 \<and> length ov \<le> 100"
    for s
    using page_chunks_bounded [of s] by (simp add: chunk_size_def chunk_overlap_def)
  have a: "\<forall>chunk \<in> set (chunk_documents docs). length (page_content chunk) \<le> 800"
    using b by (fastforce simp: chunk_documents_def)
  have c: "concat (map snd (page_chunks s)) = s" for s
    by (simp add: page_chunks_def merge_splits_fresh concat_split_text)
  have d: "chained [] (page_chunks s)" for s
    unfolding page_chunks_def by (rule merge_splits_chained) simp
  have e: "separators = [[10, 10], [10], lit ''. '', lit '' '', []]"
    by (simp add: separators_def)
  have f: "\<forall>sep seps s. split_text (sep # seps) s =
         (if length s \<le> 800 then [s]
          else if sep = [] then map (\<lambda>c. [c]) s
          else concat (map (split_text seps) (split_on sep 0 [] s)))"
    by (simp add: chunk_size_def)
  show ?thesis using a b c d e f by blast
qed



text \<open>
  A page of 900 times the letter \<open>a\<close> gives two chunks: 800 characters, then the last
  100 of these as overlap before the 100 that remain.
\<close>

theorem chunks_bounded_with_overlap_witness:
  "page_chunks (replicate 900 97) = [([], replicate 800 97), (replicate 100 97, replicate 100 97)]
   \<and> map (\<lambda>chunk. length (page_content chunk))
        (chunk_documents [\<lparr>page_content = replicate 900 97, metadata = Map.empty\<rparr>]) = [800, 200]
   \<and> list_all (\<lambda>chunk. length (page_content chunk) \<le> 800)
        (chunk_documents [\<lparr>page_content = replicate 900 97, metadata = Map.empty\<rparr>])
   \<and> chained [] (page_chunks (replicate 900 97))"
proof -
  let ?docs = "[\<lparr>page_content = replicate 900 97, metadata = Map.empty\<rparr>]"
  note t = chunks_bounded_with_overlap [of ?docs]
  have a: "map (\<lambda>chunk. length (page_content chunk)) (chunk_documents ?docs) = [800, 200]"
    by (simp add: chunk_documents_def page_chunks_long_page)
  have b: "list_all (\<lambda>chunk. length (page_content chunk) \<le> 800) (chunk_documents ?docs)"
    using t by (simp add: list_all_iff)
  have c: "chained [] (page_chunks (replicate 900 97))"
    using t by simp
  show ?thesis using page_chunks_long_page a b c by blast
qed

end
